theory Spec2Isabelle
  imports Complex_Main "HOL-Library.AList"
begin

section \<open>Conventions\<close>

text \<open>
  The risk and strategy engine of the trading bot is written in JavaScript. Its numbers are
  modelled as \<^typ>\<open>real\<close>: arithmetic is exact, and the values NaN and Infinity do not
  exist. A theorem that depends on the value of a quotient states the hypothesis that keeps
  the divisor away from zero, so the convention \<open>x / 0 = 0\<close> of HOL is never what a
  result rests on.
  A value that may be \<open>null\<close> is an \<open>option\<close>. The clock \<open>Date.now()\<close> is a parameter
  \<open>now\<close> of each operation that reads it. Log lines are not modelled; events handed to
  the event bus and timers handed to \<open>setTimeout\<close> are returned as a list of effects,
  oldest first. Listeners of the event bus are outside the modelled classes. Where two
  classes use one name for a field or a method, the name carries a prefix of its class.
\<close>

text \<open>JavaScript truthiness of a number that may be null, and of a string that may be null.\<close>

definition truthy_num :: "real option \<Rightarrow> bool" where
  "truthy_num v = (case v of None \<Rightarrow> False | Some x \<Rightarrow> x \<noteq> 0)"

definition truthy_str :: "string option \<Rightarrow> bool" where
  "truthy_str v = (case v of None \<Rightarrow> False | Some x \<Rightarrow> x \<noteq> [])"

section \<open>DrawdownManager: the drawdown circuit breaker\<close>

text \<open>One entry of \<open>config.risk.drawdownLevels\<close>.\<close>

record drawdownLevel =
  dl_percent :: real
  dl_action :: string
  dl_duration :: "real option"

text \<open>
  What a DrawdownManager does to the outside: the event of a level (with the name looked up
  in the table of \<open>triggerLevel\<close>, which has entries for the indices 0, 1 and 2 only), the
  events of the actions, and the timer that schedules \<open>resumeTrading\<close>.
\<close>

datatype effect =
    EmitDrawdownLevel "string option" nat real real real string "real option"
  | EmitBotStopped real
  | EmitStrategyChanged
  | EmitBotResumed
  | SetTimeoutResume real

record drawdownManager =
  dm_initialCapital :: real
  dm_peakCapital :: real
  dm_currentCapital :: real
  dm_currentDrawdown :: real
  dm_maxDrawdownReached :: real
  dm_levels :: "drawdownLevel list"
  dm_triggeredLevels :: "nat list"
  dm_isPaused :: bool
  dm_pauseUntil :: "real option"
  dm_currentLevel :: "nat option"

text \<open>The constructor, from \<open>config.bot.initialCapital\<close> and \<open>config.risk.drawdownLevels\<close>.\<close>

definition DrawdownManager_new :: "real \<Rightarrow> drawdownLevel list \<Rightarrow> drawdownManager" where
  "DrawdownManager_new initialCapital levels =
     \<lparr> dm_initialCapital = initialCapital,
       dm_peakCapital = initialCapital,
       dm_currentCapital = initialCapital,
       dm_currentDrawdown = 0,
       dm_maxDrawdownReached = 0,
       dm_levels = levels,
       dm_triggeredLevels = [],
       dm_isPaused = False,
       dm_pauseUntil = None,
       dm_currentLevel = None \<rparr>"

text \<open>\<open>reset()\<close> reads \<open>config.bot.initialCapital\<close> again and keeps \<open>levels\<close>.\<close>

definition dm_reset :: "real \<Rightarrow> drawdownManager \<Rightarrow> drawdownManager" where
  "dm_reset initialCapital s =
     s\<lparr> dm_initialCapital := initialCapital,
        dm_peakCapital := initialCapital,
        dm_currentCapital := initialCapital,
        dm_currentDrawdown := 0,
        dm_maxDrawdownReached := 0,
        dm_triggeredLevels := [],
        dm_isPaused := False,
        dm_pauseUntil := None,
        dm_currentLevel := None \<rparr>"

text \<open>\<open>pauseTrading(durationSeconds)\<close>: \<open>if (!durationSeconds) return\<close> covers null and 0.\<close>

definition pauseTrading ::
  "real \<Rightarrow> real option \<Rightarrow> drawdownManager \<Rightarrow> effect list \<times> drawdownManager" where
  "pauseTrading now durationSeconds s =
     (if \<not> truthy_num durationSeconds then ([], s)
      else ([SetTimeoutResume (the durationSeconds * 1000)],
            s\<lparr> dm_isPaused := True,
               dm_pauseUntil := Some (now + the durationSeconds * 1000) \<rparr>))"

definition resumeTrading :: "drawdownManager \<Rightarrow> effect list \<times> drawdownManager" where
  "resumeTrading s =
     (if \<not> dm_isPaused s then ([], s)
      else ([EmitBotResumed], s\<lparr> dm_isPaused := False, dm_pauseUntil := None \<rparr>))"

definition resetToConservative :: "drawdownManager \<Rightarrow> effect list \<times> drawdownManager" where
  "resetToConservative s = ([EmitStrategyChanged], s)"

definition stopCompletely :: "drawdownManager \<Rightarrow> effect list \<times> drawdownManager" where
  "stopCompletely s = ([EmitBotStopped (dm_currentDrawdown s * 100)], s)"

text \<open>\<open>executeAction(level)\<close>: a \<open>switch\<close> on the action string with no default branch.\<close>

definition executeAction ::
  "real \<Rightarrow> drawdownLevel \<Rightarrow> drawdownManager \<Rightarrow> effect list \<times> drawdownManager" where
  "executeAction now level s =
     (if dl_action level = ''pause'' then pauseTrading now (dl_duration level) s
      else if dl_action level = ''pause_and_reset'' then
        (let (e1, s1) = pauseTrading now (dl_duration level) s;
             (e2, s2) = resetToConservative s1
         in (e1 @ e2, s2))
      else if dl_action level = ''stop'' then stopCompletely s
      else ([], s))"

definition eventName :: "nat \<Rightarrow> string option" where
  "eventName levelIndex =
     (if levelIndex = 0 then Some ''risk.drawdown.level1''
      else if levelIndex = 1 then Some ''risk.drawdown.level2''
      else if levelIndex = 2 then Some ''risk.drawdown.level3''
      else None)"

definition triggerLevel ::
  "real \<Rightarrow> nat \<Rightarrow> drawdownLevel \<Rightarrow> drawdownManager \<Rightarrow> effect list \<times> drawdownManager" where
  "triggerLevel now levelIndex level s =
     (let s1 = s\<lparr> dm_triggeredLevels := dm_triggeredLevels s @ [levelIndex],
                  dm_currentLevel := Some (levelIndex + 1) \<rparr>;
          drawdownPercent = \<bar>dm_currentDrawdown s1 * 100\<bar>;
          e = EmitDrawdownLevel (eventName levelIndex) (levelIndex + 1) drawdownPercent
                (dm_peakCapital s1) (dm_currentCapital s1) (dl_action level) (dl_duration level);
          (es, s2) = executeAction now level s1
      in (e # es, s2))"

text \<open>
  The loop of \<open>checkDrawdownLevels\<close> over the indices still to visit. The array
  \<open>levels\<close> is only read in the loop, so the indices \<open>0 ..< levels.length\<close> are fixed
  before it starts.
\<close>

fun checkLevelsLoop ::
  "real \<Rightarrow> nat list \<Rightarrow> drawdownManager \<Rightarrow> effect list \<times> drawdownManager" where
  "checkLevelsLoop now [] s = ([], s)"
| "checkLevelsLoop now (i # rest) s =
     (let level = dm_levels s ! i in
      if dm_currentDrawdown s \<le> dl_percent level \<and> i \<notin> set (dm_triggeredLevels s) then
        (let (e1, s1) = triggerLevel now i level s;
             (e2, s2) = checkLevelsLoop now rest s1
         in (e1 @ e2, s2))
      else checkLevelsLoop now rest s)"

definition checkDrawdownLevels ::
  "real \<Rightarrow> drawdownManager \<Rightarrow> effect list \<times> drawdownManager" where
  "checkDrawdownLevels now s = checkLevelsLoop now [0 ..< length (dm_levels s)] s"

text \<open>The part of \<open>updateCapital(newCapital)\<close> before the levels are checked.\<close>

definition recomputeDrawdown :: "real \<Rightarrow> drawdownManager \<Rightarrow> drawdownManager" where
  "recomputeDrawdown newCapital s =
     (let s1 = s\<lparr> dm_currentCapital := newCapital \<rparr>;
          s2 = (if newCapital > dm_peakCapital s1 then s1\<lparr> dm_peakCapital := newCapital \<rparr> else s1);
          s3 = s2\<lparr> dm_currentDrawdown :=
                     (dm_currentCapital s2 - dm_peakCapital s2) / dm_peakCapital s2 \<rparr>
      in if dm_currentDrawdown s3 < dm_maxDrawdownReached s3
         then s3\<lparr> dm_maxDrawdownReached := dm_currentDrawdown s3 \<rparr> else s3)"

definition dm_updateCapital ::
  "real \<Rightarrow> real \<Rightarrow> drawdownManager \<Rightarrow> effect list \<times> drawdownManager" where
  "dm_updateCapital now newCapital s = checkDrawdownLevels now (recomputeDrawdown newCapital s)"

text \<open>
  \<open>isTradingPaused()\<close>; the comparison \<open>Date.now() >= this.pauseUntil\<close> reads a null
  \<open>pauseUntil\<close> as 0.
\<close>

definition isTradingPaused ::
  "real \<Rightarrow> drawdownManager \<Rightarrow> bool \<times> effect list \<times> drawdownManager" where
  "isTradingPaused now s =
     (if \<not> dm_isPaused s then (False, [], s)
      else if now \<ge> (case dm_pauseUntil s of None \<Rightarrow> 0 | Some u \<Rightarrow> u)
        then (False, resumeTrading s)
      else (True, [], s))"

text \<open>
  The calls a run makes on one DrawdownManager between two resets: \<open>updateCapital\<close>, the
  timer callback \<open>resumeTrading\<close>, and the query \<open>isTradingPaused\<close>.
\<close>

datatype dm_call = UpdateCapital real real | ResumeTrading | IsTradingPaused real

fun dm_step :: "dm_call \<Rightarrow> drawdownManager \<Rightarrow> effect list \<times> drawdownManager" where
  "dm_step (UpdateCapital now newCapital) s = dm_updateCapital now newCapital s"
| "dm_step ResumeTrading s = resumeTrading s"
| "dm_step (IsTradingPaused now) s = snd (isTradingPaused now s)"

fun dm_run :: "dm_call list \<Rightarrow> drawdownManager \<Rightarrow> effect list \<times> drawdownManager" where
  "dm_run [] s = ([], s)"
| "dm_run (c # cs) s =
     (let (e1, s1) = dm_step c s; (e2, s2) = dm_run cs s1 in (e1 @ e2, s2))"


section \<open>PositionManager\<close>

record position =
  pos_pair :: string
  pos_entryPrice :: real
  pos_entryTime :: real
  pos_investedAmount :: real
  pos_tokenAmount :: real
  pos_currentPrice :: real
  pos_unrealizedPnL :: real
  pos_unrealizedPnLPercent :: real

text \<open>
  \<open>openPositions\<close> is a JavaScript \<open>Map\<close>, which iterates in insertion order: an
  association list with \<open>map_of\<close> for \<open>get\<close>/\<open>has\<close>, \<open>AList.update\<close> for \<open>set\<close> (a new
  key goes to the end) and \<open>AList.delete\<close> for \<open>delete\<close>.
\<close>

record positionManager =
  pm_maxPositionPercent :: real
  pm_currentCapital :: real
  pm_openPositions :: "(string \<times> position) list"

definition PositionManager_new :: "real \<Rightarrow> real \<Rightarrow> positionManager" where
  "PositionManager_new maxPositionPercent initialCapital =
     \<lparr> pm_maxPositionPercent = maxPositionPercent,
       pm_currentCapital = initialCapital,
       pm_openPositions = [] \<rparr>"


definition getAvailableCapital :: "positionManager \<Rightarrow> real" where
  "getAvailableCapital s =
     (let capitalInPositions =
            foldl (\<lambda>acc (_, position). acc + pos_investedAmount position) 0 (pm_openPositions s)
      in pm_currentCapital s - capitalInPositions)"

definition hasOpenPosition :: "positionManager \<Rightarrow> string \<Rightarrow> bool" where
  "hasOpenPosition s pair = (map_of (pm_openPositions s) pair \<noteq> None)"

definition getPosition :: "positionManager \<Rightarrow> string \<Rightarrow> position option" where
  "getPosition s pair = map_of (pm_openPositions s) pair"

record positionSize =
  ps_amountUSD :: real
  ps_amountToken :: real
  ps_percent :: real

definition calculatePositionSize :: "real \<Rightarrow> real option \<Rightarrow> positionManager \<Rightarrow> positionSize" where
  "calculatePositionSize currentPrice volatility s =
     (let availableCapital = getAvailableCapital s;
          baseAmount0 = availableCapital * pm_maxPositionPercent s;
          baseAmount = (case volatility of
                          None \<Rightarrow> baseAmount0
                        | Some v \<Rightarrow> baseAmount0 * max 0.5 (1 - v / 0.5))
      in \<lparr> ps_amountUSD = baseAmount,
           ps_amountToken = baseAmount / currentPrice,
           ps_percent = (baseAmount / pm_currentCapital s) * 100 \<rparr>)"

definition openPosition ::
  "real \<Rightarrow> string \<Rightarrow> real \<Rightarrow> real \<Rightarrow> real \<Rightarrow> positionManager \<Rightarrow> bool \<times> positionManager" where
  "openPosition now pair entryPrice amountUSD amountToken s =
     (if hasOpenPosition s pair then (False, s)
      else
        (let position = \<lparr> pos_pair = pair,
                           pos_entryPrice = entryPrice,
                           pos_entryTime = now,
                           pos_investedAmount = amountUSD,
                           pos_tokenAmount = amountToken,
                           pos_currentPrice = entryPrice,
                           pos_unrealizedPnL = 0,
                           pos_unrealizedPnLPercent = 0 \<rparr>
         in (True, s\<lparr> pm_openPositions := AList.update pair position (pm_openPositions s) \<rparr>)))"









section \<open>TrailingStopLoss\<close>

text \<open>The events of the exit classes, with the payload each carries.\<close>

datatype exit_effect =
    EmitStopLossTriggered real real real real
  | EmitTakeProfitTriggered nat real real real real real

record trailingStopLoss =
  sl_entryPrice :: real
  sl_trailingPercent :: real
  sl_highestPrice :: real
  sl_stopPrice :: real
  sl_isTriggered :: bool

text \<open>
  The constructor; \<open>trailingPercent || config.risk.stopLossTrailing\<close> takes the
  configured value when the argument is null or 0.
\<close>

definition TrailingStopLoss_new :: "real \<Rightarrow> real \<Rightarrow> real option \<Rightarrow> trailingStopLoss" where
  "TrailingStopLoss_new stopLossTrailing entryPrice trailingPercent =
     (let tp = (if truthy_num trailingPercent then the trailingPercent else stopLossTrailing)
      in \<lparr> sl_entryPrice = entryPrice,
           sl_trailingPercent = tp,
           sl_highestPrice = entryPrice,
           sl_stopPrice = entryPrice * (1 - tp),
           sl_isTriggered = False \<rparr>)"

definition sl_update :: "real \<Rightarrow> trailingStopLoss \<Rightarrow> bool \<times> exit_effect list \<times> trailingStopLoss" where
  "sl_update currentPrice s =
     (let s1 = (if currentPrice > sl_highestPrice s
                then s\<lparr> sl_highestPrice := currentPrice,
                        sl_stopPrice := currentPrice * (1 - sl_trailingPercent s) \<rparr>
                else s)
      in if currentPrice \<le> sl_stopPrice s1 \<and> \<not> sl_isTriggered s1 then
           (let s2 = s1\<lparr> sl_isTriggered := True \<rparr>;
                pnlPercent = ((currentPrice - sl_entryPrice s2) / sl_entryPrice s2) * 100
            in (True,
                [EmitStopLossTriggered (sl_entryPrice s2) currentPrice (sl_highestPrice s2) pnlPercent],
                s2))
         else (False, [], s1))"

fun sl_run :: "real list \<Rightarrow> trailingStopLoss \<Rightarrow> trailingStopLoss" where
  "sl_run [] s = s"
| "sl_run (p # ps) s = sl_run ps (snd (snd (sl_update p s)))"

section \<open>TakeProfitLevels\<close>

text \<open>One entry of \<open>config.risk.takeProfitLevels\<close>, and a level of a position.\<close>

record takeProfitConfig =
  tc_percent :: real
  tc_amount :: real

record takeProfitLevel =
  tp_percent :: real
  tp_amount :: real
  tp_targetPrice :: real
  tp_isTriggered :: bool
  tp_levelIndex :: nat

record takeProfitLevels =
  tpl_entryPrice :: real
  tpl_levels :: "takeProfitLevel list"
  tpl_executedLevels :: "takeProfitLevel list"

text \<open>The \<open>map((level, index) => ...)\<close> of the constructor, from index \<open>index\<close> on.\<close>

fun levelsFromConfig :: "real \<Rightarrow> nat \<Rightarrow> takeProfitConfig list \<Rightarrow> takeProfitLevel list" where
  "levelsFromConfig entryPrice index [] = []"
| "levelsFromConfig entryPrice index (level # rest) =
     \<lparr> tp_percent = tc_percent level,
       tp_amount = tc_amount level,
       tp_targetPrice = entryPrice * (1 + tc_percent level),
       tp_isTriggered = False,
       tp_levelIndex = index + 1 \<rparr> # levelsFromConfig entryPrice (index + 1) rest"

text \<open>The constructor; an array handed in as \<open>levels\<close> is used as it is.\<close>

definition TakeProfitLevels_new ::
  "takeProfitConfig list \<Rightarrow> real \<Rightarrow> takeProfitLevel list option \<Rightarrow> takeProfitLevels" where
  "TakeProfitLevels_new configLevels entryPrice levels =
     \<lparr> tpl_entryPrice = entryPrice,
       tpl_levels = (case levels of
                       Some ls \<Rightarrow> ls
                     | None \<Rightarrow> levelsFromConfig entryPrice 0 configLevels),
       tpl_executedLevels = [] \<rparr>"

text \<open>
  The loop of \<open>checkLevels\<close>: for the levels still to visit it returns the levels as the
  loop leaves them, the levels it triggered (what is pushed on \<open>triggeredLevels\<close> and on
  \<open>executedLevels\<close>), and the events. The levels of one object are distinct objects.
\<close>

fun checkLevelsFrom ::
  "real \<Rightarrow> real \<Rightarrow> takeProfitLevel list \<Rightarrow>
   takeProfitLevel list \<times> takeProfitLevel list \<times> exit_effect list" where
  "checkLevelsFrom entryPrice currentPrice [] = ([], [], [])"
| "checkLevelsFrom entryPrice currentPrice (level # rest) =
     (if \<not> tp_isTriggered level \<and> currentPrice \<ge> tp_targetPrice level then
        (let level' = level\<lparr> tp_isTriggered := True \<rparr>;
             pnlPercent = ((currentPrice - entryPrice) / entryPrice) * 100;
             e = EmitTakeProfitTriggered (tp_levelIndex level) entryPrice currentPrice
                   (tp_percent level * 100) (tp_amount level * 100) pnlPercent;
             (rest', triggered, es) = checkLevelsFrom entryPrice currentPrice rest
         in (level' # rest', level' # triggered, e # es))
      else
        (let (rest', triggered, es) = checkLevelsFrom entryPrice currentPrice rest
         in (level # rest', triggered, es)))"

definition checkLevels ::
  "real \<Rightarrow> takeProfitLevels \<Rightarrow> takeProfitLevel list \<times> exit_effect list \<times> takeProfitLevels" where
  "checkLevels currentPrice s =
     (let (levels', triggeredLevels, es) =
            checkLevelsFrom (tpl_entryPrice s) currentPrice (tpl_levels s)
      in (triggeredLevels, es,
          s\<lparr> tpl_levels := levels',
             tpl_executedLevels := tpl_executedLevels s @ triggeredLevels \<rparr>))"

definition allLevelsExecuted :: "takeProfitLevels \<Rightarrow> bool" where
  "allLevelsExecuted s = list_all (\<lambda>level. tp_isTriggered level) (tpl_levels s)"

fun tp_run :: "real list \<Rightarrow> takeProfitLevels \<Rightarrow> takeProfitLevels" where
  "tp_run [] s = s"
| "tp_run (p # ps) s = tp_run ps (snd (snd (checkLevels p s)))"

section \<open>ExitManager\<close>

record exitRecord =
  ex_stopLoss :: trailingStopLoss
  ex_takeProfit :: takeProfitLevels
  ex_entryPrice :: real
  ex_startTime :: real

record exitManager =
  em_activeExits :: "(string \<times> exitRecord) list"

record partialExitItem =
  pe_levelIndex :: nat
  pe_amountPercent :: real
  pe_targetPrice :: real
  pe_currentPrice :: real

text \<open>
  The three shapes of the result of \<open>update\<close>: nothing to do, a full exit with its
  reason, exit price and profit in percent, and a partial exit with its levels.
\<close>

datatype exitDecision =
    NoExit
  | FullExit string real real
  | PartialExit "partialExitItem list"

definition ExitManager_new :: exitManager where
  "ExitManager_new = \<lparr> em_activeExits = [] \<rparr>"

definition startManaging ::
  "real \<Rightarrow> takeProfitConfig list \<Rightarrow> real \<Rightarrow> string \<Rightarrow> real \<Rightarrow> exitManager \<Rightarrow> exitManager" where
  "startManaging stopLossTrailing configLevels now pair entryPrice s =
     (let stopLoss = TrailingStopLoss_new stopLossTrailing entryPrice None;
          takeProfit = TakeProfitLevels_new configLevels entryPrice None
      in s\<lparr> em_activeExits :=
               AList.update pair
                 \<lparr> ex_stopLoss = stopLoss, ex_takeProfit = takeProfit,
                   ex_entryPrice = entryPrice, ex_startTime = now \<rparr>
                 (em_activeExits s) \<rparr>)"

definition em_update ::
  "string \<Rightarrow> real \<Rightarrow> exitManager \<Rightarrow> exitDecision \<times> exit_effect list \<times> exitManager" where
  "em_update pair currentPrice s =
     (case map_of (em_activeExits s) pair of
        None \<Rightarrow> (NoExit, [], s)
      | Some exit \<Rightarrow>
          (let (stopTriggered, e1, stopLoss') = sl_update currentPrice (ex_stopLoss exit);
               exit1 = exit\<lparr> ex_stopLoss := stopLoss' \<rparr>;
               s1 = s\<lparr> em_activeExits := AList.update pair exit1 (em_activeExits s) \<rparr>
           in if stopTriggered then
                (FullExit ''stop_loss'' currentPrice
                   (((currentPrice - ex_entryPrice exit1) / ex_entryPrice exit1) * 100),
                 e1, s1)
              else
                (let (triggeredLevels, e2, takeProfit') = checkLevels currentPrice (ex_takeProfit exit1);
                     exit2 = exit1\<lparr> ex_takeProfit := takeProfit' \<rparr>;
                     s2 = s1\<lparr> em_activeExits := AList.update pair exit2 (em_activeExits s1) \<rparr>
                 in if length triggeredLevels > 0 then
                      (if allLevelsExecuted (ex_takeProfit exit2) then
                         (FullExit ''all_take_profit_levels'' currentPrice
                            (((currentPrice - ex_entryPrice exit2) / ex_entryPrice exit2) * 100),
                          e1 @ e2, s2)
                       else
                         (PartialExit
                            (map (\<lambda>level. \<lparr> pe_levelIndex = tp_levelIndex level,
                                             pe_amountPercent = tp_amount level,
                                             pe_targetPrice = tp_targetPrice level,
                                             pe_currentPrice = currentPrice \<rparr>)
                               triggeredLevels),
                          e1 @ e2, s2))
                    else (NoExit, e1 @ e2, s2))))"

definition stopManaging :: "string \<Rightarrow> exitManager \<Rightarrow> exitManager" where
  "stopManaging pair s =
     (if map_of (em_activeExits s) pair \<noteq> None
      then s\<lparr> em_activeExits := AList.delete pair (em_activeExits s) \<rparr> else s)"

definition isManaging :: "exitManager \<Rightarrow> string \<Rightarrow> bool" where
  "isManaging s pair = (map_of (em_activeExits s) pair \<noteq> None)"

section \<open>Market data and the strategies' gate\<close>

text \<open>
  A market snapshot. A field that is absent (or null) is \<open>None\<close>; only the fields read by
  \<open>validateMarketData\<close> and by the two \<open>canTrade\<close> are kept.
\<close>

record marketData =
  md_price :: "real option"
  md_volume :: "real option"
  md_liquidity :: "real option"
  md_volatility :: "real option"
  md_timestamp :: "string option"

text \<open>\<open>!marketData[field]\<close> for the four names of \<open>required\<close>.\<close>

definition fieldMissing :: "marketData \<Rightarrow> string \<Rightarrow> bool" where
  "fieldMissing marketData field =
     (if field = ''price'' then \<not> truthy_num (md_price marketData)
      else if field = ''volume'' then \<not> truthy_num (md_volume marketData)
      else if field = ''liquidity'' then \<not> truthy_num (md_liquidity marketData)
      else if field = ''timestamp'' then \<not> truthy_str (md_timestamp marketData)
      else True)"

definition missingFields :: "marketData \<Rightarrow> string list" where
  "missingFields marketData =
     filter (fieldMissing marketData) [''price'', ''volume'', ''liquidity'', ''timestamp'']"

definition validateMarketData :: "marketData \<Rightarrow> bool" where
  "validateMarketData marketData =
     (if length (missingFields marketData) > 0 then False else True)"

text \<open>
  A comparison \<open>x < bound\<close> where \<open>x\<close> may be absent: JavaScript compares
  \<open>undefined\<close> as NaN, so the comparison is false.
\<close>

definition num_less :: "real option \<Rightarrow> real \<Rightarrow> bool" where
  "num_less x bound = (case x of None \<Rightarrow> False | Some v \<Rightarrow> v < bound)"

definition num_greater :: "real option \<Rightarrow> real \<Rightarrow> bool" where
  "num_greater x bound = (case x of None \<Rightarrow> False | Some v \<Rightarrow> v > bound)"

text \<open>\<open>GridTradingStrategy.canTrade\<close>, with \<open>config.analysis.minLiquidity\<close>.\<close>

definition grid_canTrade :: "real \<Rightarrow> marketData \<Rightarrow> bool" where
  "grid_canTrade minLiquidity marketData =
     (if \<not> validateMarketData marketData then False
      else if truthy_num (md_volatility marketData) \<and> num_greater (md_volatility marketData) 0.15
        then False
      else if num_less (md_liquidity marketData) minLiquidity then False
      else True)"

text \<open>\<open>MomentumStrategy.canTrade\<close>, with \<open>config.analysis.minVolume24h\<close>.\<close>

definition momentum_canTrade :: "real \<Rightarrow> marketData \<Rightarrow> bool" where
  "momentum_canTrade minVolume24h marketData =
     (if \<not> validateMarketData marketData then False
      else if truthy_num (md_volatility marketData) \<and> num_less (md_volatility marketData) 0.05
        then False
      else if num_less (md_volume marketData) minVolume24h then False
      else True)"

section \<open>StrategyManager\<close>

datatype strategyKey = Grid | Momentum

text \<open>
  \<open>this.strategies[strategyName]\<close> on the object literal \<open>{grid, momentum}\<close>: its own two
  keys, the members every object inherits from \<open>Object.prototype\<close> (which are not
  strategies, but are truthy), and nothing for any other name.
\<close>

datatype lookup = Found strategyKey | Inherited | Absent

definition inheritedNames :: "string list" where
  "inheritedNames =
     [''constructor'', ''hasOwnProperty'', ''isPrototypeOf'', ''propertyIsEnumerable'',
      ''toLocaleString'', ''toString'', ''valueOf'', ''__proto__'',
      ''__defineGetter__'', ''__defineSetter__'', ''__lookupGetter__'', ''__lookupSetter__'']"

definition lookupStrategy :: "string \<Rightarrow> lookup" where
  "lookupStrategy strategyName =
     (if strategyName = ''grid'' then Found Grid
      else if strategyName = ''momentum'' then Found Momentum
      else if strategyName \<in> set inheritedNames then Inherited
      else Absent)"

text \<open>What \<open>currentStrategy\<close> refers to: nothing, one of the two strategies, or an
  inherited member left there by a call that then failed.\<close>

datatype current = NoStrategy | Strategy strategyKey | NotAStrategy

datatype sm_effect = EmitStrategySelected string

datatype sm_error = TypeError

record strategyManager =
  sm_gridActive :: bool
  sm_momentumActive :: bool
  sm_currentStrategy :: current
  sm_defaultStrategy :: string
  sm_lastSwitch :: "real option"
  sm_switchCooldown :: real

definition StrategyManager_new :: "string \<Rightarrow> strategyManager" where
  "StrategyManager_new defaultStrategy =
     \<lparr> sm_gridActive = False,
       sm_momentumActive = False,
       sm_currentStrategy = NoStrategy,
       sm_defaultStrategy = defaultStrategy,
       sm_lastSwitch = None,
       sm_switchCooldown = 300000 \<rparr>"

definition strategyName :: "strategyKey \<Rightarrow> string" where
  "strategyName k = (case k of Grid \<Rightarrow> ''Grid Trading'' | Momentum \<Rightarrow> ''Momentum'')"

definition setActive :: "strategyKey \<Rightarrow> bool \<Rightarrow> strategyManager \<Rightarrow> strategyManager" where
  "setActive k b s =
     (case k of Grid \<Rightarrow> s\<lparr> sm_gridActive := b \<rparr> | Momentum \<Rightarrow> s\<lparr> sm_momentumActive := b \<rparr>)"

text \<open>
  \<open>selectStrategy(strategyName, metadata)\<close>. The result is the returned boolean, or the
  TypeError of calling \<open>deactivate\<close> or \<open>activate\<close> on something that is not a strategy;
  the state is the one the call leaves behind in either case.
\<close>

definition selectStrategy ::
  "real \<Rightarrow> string \<Rightarrow> strategyManager \<Rightarrow> (sm_error + bool) \<times> sm_effect list \<times> strategyManager" where
  "selectStrategy now name s =
     (if truthy_num (sm_lastSwitch s) \<and> now - the (sm_lastSwitch s) < sm_switchCooldown s
        then (Inr False, [], s)
      else
        (case lookupStrategy name of
           Absent \<Rightarrow> (Inr False, [], s)
         | Inherited \<Rightarrow>
             (case sm_currentStrategy s of
                NotAStrategy \<Rightarrow> (Inl TypeError, [], s)
              | NoStrategy \<Rightarrow> (Inl TypeError, [], s\<lparr> sm_currentStrategy := NotAStrategy \<rparr>)
              | Strategy old \<Rightarrow>
                  (Inl TypeError, [], (setActive old False s)\<lparr> sm_currentStrategy := NotAStrategy \<rparr>))
         | Found k \<Rightarrow>
             (case sm_currentStrategy s of
                NotAStrategy \<Rightarrow> (Inl TypeError, [], s)
              | _ \<Rightarrow>
                  (let s1 = (case sm_currentStrategy s of
                               Strategy old \<Rightarrow> setActive old False s
                             | _ \<Rightarrow> s);
                       s2 = (setActive k True s1)\<lparr> sm_currentStrategy := Strategy k \<rparr>;
                       s3 = s2\<lparr> sm_lastSwitch := Some now \<rparr>
                   in (Inr True,
                       [EmitStrategySelected (strategyName k), EmitStrategySelected name],
                       s3)))))"

text \<open>\<open>forceSwitch(strategyName, reason)\<close>; an exception of \<open>selectStrategy\<close> passes
  through it, after \<open>lastSwitch\<close> has been cleared.\<close>

definition forceSwitch ::
  "real \<Rightarrow> string \<Rightarrow> strategyManager \<Rightarrow> (sm_error + bool) \<times> sm_effect list \<times> strategyManager" where
  "forceSwitch now name s =
     (let originalSwitch = sm_lastSwitch s;
          s1 = s\<lparr> sm_lastSwitch := None \<rparr>;
          (success, es, s2) = selectStrategy now name s1
      in case success of
           Inl err \<Rightarrow> (Inl err, es, s2)
         | Inr True \<Rightarrow> (Inr True, es, s2)
         | Inr False \<Rightarrow> (Inr False, es, s2\<lparr> sm_lastSwitch := originalSwitch \<rparr>))"

section \<open>Notions used in the statements\<close>

subsection \<open>Drawdown\<close>

text \<open>The level numbers, oldest first, of the level events in a list of effects.\<close>

fun levelsFired :: "effect list \<Rightarrow> nat list" where
  "levelsFired [] = []"
| "levelsFired (EmitDrawdownLevel nm n d p c a du # es) = n # levelsFired es"
| "levelsFired (e # es) = levelsFired es"

text \<open>The indices among \<open>idxs\<close> whose level is reached in state \<open>s\<close> and has not fired yet.\<close>

definition dueLevels :: "drawdownManager \<Rightarrow> nat list \<Rightarrow> nat list" where
  "dueLevels s idxs =
     filter (\<lambda>i. dm_currentDrawdown s \<le> dl_percent (dm_levels s ! i) \<and>
                 i \<notin> set (dm_triggeredLevels s)) idxs"

text \<open>Two states with the same capital figures and the same configured levels.\<close>

definition same_figures :: "drawdownManager \<Rightarrow> drawdownManager \<Rightarrow> bool" where
  "same_figures s t \<longleftrightarrow>
     dm_initialCapital t = dm_initialCapital s \<and> dm_peakCapital t = dm_peakCapital s \<and>
     dm_currentCapital t = dm_currentCapital s \<and> dm_currentDrawdown t = dm_currentDrawdown s \<and>
     dm_maxDrawdownReached t = dm_maxDrawdownReached s \<and> dm_levels t = dm_levels s"

definition dm_inv :: "drawdownManager \<Rightarrow> bool" where
  "dm_inv s \<longleftrightarrow> 0 < dm_peakCapital s \<and> dm_currentCapital s \<le> dm_peakCapital s \<and>
     dm_currentDrawdown s = (dm_currentCapital s - dm_peakCapital s) / dm_peakCapital s"

text \<open>
  What a level does when it fires, written out on its own after the description of the
  three actions in the specification, without the methods above: whether its action
  suspends trading (a pause with a duration that is null or 0 suspends nothing), what the
  action emits, what the level emits in all (its event, then the effects of its action),
  and what it does to the state.
\<close>

definition pausing :: "drawdownLevel \<Rightarrow> bool" where
  "pausing level \<longleftrightarrow>
     (dl_action level = ''pause'' \<or> dl_action level = ''pause_and_reset'') \<and>
     (case dl_duration level of None \<Rightarrow> False | Some d \<Rightarrow> d \<noteq> 0)"

definition actionEffects :: "real \<Rightarrow> drawdownLevel \<Rightarrow> effect list" where
  "actionEffects drawdown level =
     (if dl_action level = ''pause'' then
        (if pausing level then [SetTimeoutResume (the (dl_duration level) * 1000)] else [])
      else if dl_action level = ''pause_and_reset'' then
        (if pausing level then [SetTimeoutResume (the (dl_duration level) * 1000)] else [])
        @ [EmitStrategyChanged]
      else if dl_action level = ''stop'' then [EmitBotStopped (drawdown * 100)]
      else [])"

definition levelBlock :: "drawdownLevel list \<Rightarrow> real \<Rightarrow> real \<Rightarrow> real \<Rightarrow> nat \<Rightarrow> effect list" where
  "levelBlock levels drawdown peak capital i =
     EmitDrawdownLevel (eventName i) (Suc i) \<bar>drawdown * 100\<bar> peak capital
       (dl_action (levels ! i)) (dl_duration (levels ! i))
     # actionEffects drawdown (levels ! i)"

definition applyLevel :: "real \<Rightarrow> drawdownManager \<Rightarrow> nat \<Rightarrow> drawdownManager" where
  "applyLevel now s i =
     (if pausing (dm_levels s ! i) then
        s\<lparr> dm_triggeredLevels := dm_triggeredLevels s @ [i],
           dm_isPaused := True,
           dm_pauseUntil := Some (now + the (dl_duration (dm_levels s ! i)) * 1000),
           dm_currentLevel := Some (Suc i) \<rparr>
      else
        s\<lparr> dm_triggeredLevels := dm_triggeredLevels s @ [i],
           dm_currentLevel := Some (Suc i) \<rparr>)"

text \<open>One firing of a run: the index of the level and the figures its event carries.\<close>

definition firedBlock :: "drawdownLevel list \<Rightarrow> nat \<times> real \<times> real \<times> real \<Rightarrow> effect list" where
  "firedBlock levels f = (case f of (i, drawdown, peak, capital) \<Rightarrow> levelBlock levels drawdown peak capital i)"

text \<open>
  A run in which a level fires only when it is reached and not yet in \<open>triggeredLevels\<close>,
  written with the firing above: \<open>updateCapital\<close> recomputes the figures and fires the
  levels that are due, in ascending order; the other two calls can only end a pause.
\<close>

definition endPause :: "drawdownManager \<Rightarrow> effect list \<times> drawdownManager" where
  "endPause s =
     (if dm_isPaused s
      then ([EmitBotResumed], s\<lparr> dm_isPaused := False, dm_pauseUntil := None \<rparr>)
      else ([], s))"

fun firingStep :: "dm_call \<Rightarrow> drawdownManager \<Rightarrow> effect list \<times> drawdownManager" where
  "firingStep (UpdateCapital now newCapital) s =
     (let s1 = recomputeDrawdown newCapital s;
          due = dueLevels s1 [0 ..< length (dm_levels s)]
      in (concat (map (levelBlock (dm_levels s) (dm_currentDrawdown s1) (dm_peakCapital s1)
                         (dm_currentCapital s1)) due),
          foldl (applyLevel now) s1 due))"
| "firingStep ResumeTrading s = endPause s"
| "firingStep (IsTradingPaused now) s =
     (if dm_isPaused s \<and> (case dm_pauseUntil s of None \<Rightarrow> 0 | Some u \<Rightarrow> u) \<le> now
      then endPause s else ([], s))"

fun firingRun :: "dm_call list \<Rightarrow> drawdownManager \<Rightarrow> effect list \<times> drawdownManager" where
  "firingRun [] s = ([], s)"
| "firingRun (c # cs) s =
     (case firingStep c s of (e1, s1) \<Rightarrow>
        (case firingRun cs s1 of (e2, s2) \<Rightarrow> (e1 @ e2, s2)))"

text \<open>The three levels of the specification's example: -5%, -10% and -15%.\<close>

definition exampleLevels :: "drawdownLevel list" where
  "exampleLevels =
     [\<lparr> dl_percent = - 0.05, dl_action = ''pause'', dl_duration = Some 1800 \<rparr>,
      \<lparr> dl_percent = - 0.10, dl_action = ''pause_and_reset'', dl_duration = Some 7200 \<rparr>,
      \<lparr> dl_percent = - 0.15, dl_action = ''stop'', dl_duration = None \<rparr>]"

text \<open>
  The default of \<open>config.risk.drawdownLevels\<close>. Its percents are positive (0.05, 0.10,
  0.15), while the drawdown they are compared with is never above 0.
\<close>

definition configDrawdownLevels :: "drawdownLevel list" where
  "configDrawdownLevels =
     [\<lparr> dl_percent = 0.05, dl_action = ''pause'', dl_duration = Some 1800 \<rparr>,
      \<lparr> dl_percent = 0.10, dl_action = ''pause_and_reset'', dl_duration = Some 7200 \<rparr>,
      \<lparr> dl_percent = 0.15, dl_action = ''stop'', dl_duration = None \<rparr>]"

subsection \<open>Positions\<close>

text \<open>The local variable \<open>capitalInPositions\<close> of \<open>getAvailableCapital\<close> when its loop ends.\<close>

definition capitalInPositions :: "positionManager \<Rightarrow> real" where
  "capitalInPositions s =
     foldl (\<lambda>acc (_, position). acc + pos_investedAmount position) 0 (pm_openPositions s)"

subsection \<open>Exits\<close>

definition sl_inv :: "trailingStopLoss \<Rightarrow> bool" where
  "sl_inv s \<longleftrightarrow> sl_stopPrice s = sl_highestPrice s * (1 - sl_trailingPercent s)"

text \<open>The default of \<open>config.risk.takeProfitLevels\<close>: +10%, +20%, +30%.\<close>

definition configTakeProfitLevels :: "takeProfitConfig list" where
  "configTakeProfitLevels =
     [\<lparr> tc_percent = 0.10, tc_amount = 0.25 \<rparr>,
      \<lparr> tc_percent = 0.20, tc_amount = 0.50 \<rparr>,
      \<lparr> tc_percent = 0.30, tc_amount = 0.25 \<rparr>]"

text \<open>A level that a call of \<open>checkLevels\<close> at \<open>currentPrice\<close> triggers.\<close>

definition tp_due :: "real \<Rightarrow> takeProfitLevel \<Rightarrow> bool" where
  "tp_due currentPrice level \<longleftrightarrow>
     \<not> tp_isTriggered level \<and> currentPrice \<ge> tp_targetPrice level"

definition tp_inv :: "takeProfitLevels \<Rightarrow> bool" where
  "tp_inv t \<longleftrightarrow>
     distinct (map tp_levelIndex (tpl_levels t)) \<and>
     distinct (map tp_levelIndex (tpl_executedLevels t)) \<and>
     tp_levelIndex ` set (tpl_executedLevels t) \<subseteq>
       tp_levelIndex ` {l \<in> set (tpl_levels t). tp_isTriggered l}"

text \<open>
  A state of the exit manager in which one price is at once under the stop and over the
  take-profit targets: the stop of the position is at 194, its take-profit levels (110,
  120, 130) are untriggered, and a price of 150 satisfies both.
\<close>

definition exampleExit :: exitRecord where
  "exampleExit =
     \<lparr> ex_stopLoss = \<lparr> sl_entryPrice = 100, sl_trailingPercent = 0.03,
                       sl_highestPrice = 200, sl_stopPrice = 194, sl_isTriggered = False \<rparr>,
       ex_takeProfit = TakeProfitLevels_new configTakeProfitLevels 100 None,
       ex_entryPrice = 100, ex_startTime = 0 \<rparr>"

definition exampleExits :: exitManager where
  "exampleExits = \<lparr> em_activeExits = [(''ETH/USDC'', exampleExit)] \<rparr>"

section \<open>Properties of the DrawdownManager\<close>

subsection \<open>What each method leaves alone\<close>

lemma same_figures_refl: "same_figures s s" by (simp add: same_figures_def)
lemma same_figures_trans: "same_figures s t \<Longrightarrow> same_figures t u \<Longrightarrow> same_figures s u"
  by (simp add: same_figures_def)

lemma levelsFired_append: "levelsFired (a @ b) = levelsFired a @ levelsFired b"
  by (induction a rule: levelsFired.induct) simp_all

lemma pauseTrading_figures: "same_figures s (snd (pauseTrading now d s))"
  by (simp add: pauseTrading_def same_figures_def)

lemma pauseTrading_triggered: "dm_triggeredLevels (snd (pauseTrading now d s)) = dm_triggeredLevels s"
  by (simp add: pauseTrading_def)

lemma pauseTrading_fired: "levelsFired (fst (pauseTrading now d s)) = []"
  by (simp add: pauseTrading_def)

lemma resumeTrading_figures: "same_figures s (snd (resumeTrading s))"
  by (simp add: resumeTrading_def same_figures_def)

lemma resumeTrading_triggered: "dm_triggeredLevels (snd (resumeTrading s)) = dm_triggeredLevels s"
  by (simp add: resumeTrading_def)

lemma resumeTrading_fired: "levelsFired (fst (resumeTrading s)) = []"
  by (simp add: resumeTrading_def)

lemma executeAction_figures: "same_figures s (snd (executeAction now level s))"
  using pauseTrading_figures[of s now "dl_duration level"]
  by (auto simp: executeAction_def resetToConservative_def stopCompletely_def same_figures_refl
      split: prod.splits)

lemma executeAction_triggered:
  "dm_triggeredLevels (snd (executeAction now level s)) = dm_triggeredLevels s"
  using pauseTrading_triggered[of now "dl_duration level" s]
  by (auto simp: executeAction_def resetToConservative_def stopCompletely_def levelsFired_append
      split: prod.splits)

lemma executeAction_fired: "levelsFired (fst (executeAction now level s)) = []"
  using pauseTrading_fired[of now "dl_duration level" s]
  by (auto simp: executeAction_def resetToConservative_def stopCompletely_def levelsFired_append
      split: prod.splits)

lemma triggerLevel_figures: "same_figures s (snd (triggerLevel now i level s))"
  using executeAction_figures[of "s\<lparr> dm_triggeredLevels := dm_triggeredLevels s @ [i],
                  dm_currentLevel := Some (i + 1) \<rparr>" now level]
  by (auto simp: triggerLevel_def Let_def same_figures_def split: prod.splits)

lemma triggerLevel_triggered:
  "dm_triggeredLevels (snd (triggerLevel now i level s)) = dm_triggeredLevels s @ [i]"
  using executeAction_triggered[of now level "s\<lparr> dm_triggeredLevels := dm_triggeredLevels s @ [i],
                  dm_currentLevel := Some (i + 1) \<rparr>"]
  by (auto simp: triggerLevel_def Let_def split: prod.splits)

lemma triggerLevel_fired: "levelsFired (fst (triggerLevel now i level s)) = [Suc i]"
  using executeAction_fired[of now level "s\<lparr> dm_triggeredLevels := dm_triggeredLevels s @ [i],
                  dm_currentLevel := Some (i + 1) \<rparr>"]
  by (auto simp: triggerLevel_def Let_def split: prod.splits)

subsection \<open>The loop over the levels\<close>

lemma loop_figures: "same_figures s (snd (checkLevelsLoop now idxs s))"
proof (induction idxs arbitrary: s)
  case Nil
  show ?case by (simp add: same_figures_refl)
next
  case (Cons i rest)
  show ?case
    using Cons.IH[of s] Cons.IH[of "snd (triggerLevel now i (dm_levels s ! i) s)"]
      triggerLevel_figures[of s now i "dm_levels s ! i"]
    by (auto simp: Let_def split: prod.splits intro: same_figures_trans)
qed

lemma dueLevels_cong:
  assumes "same_figures s t"
    and "\<And>j. j \<in> set idxs \<Longrightarrow> (j \<in> set (dm_triggeredLevels t)) = (j \<in> set (dm_triggeredLevels s))"
  shows "dueLevels t idxs = dueLevels s idxs"
  using assms unfolding dueLevels_def same_figures_def
  by (intro filter_cong) auto

lemma triggerLevel_effects_cong:
  "same_figures s t \<Longrightarrow> fst (triggerLevel now i level t) = fst (triggerLevel now i level s)"
  by (auto simp: triggerLevel_def executeAction_def pauseTrading_def resetToConservative_def
      stopCompletely_def same_figures_def Let_def split: prod.splits)

lemma loop_triggered:
  "distinct idxs \<Longrightarrow>
   dm_triggeredLevels (snd (checkLevelsLoop now idxs s)) = dm_triggeredLevels s @ dueLevels s idxs"
proof (induction idxs arbitrary: s)
  case Nil
  show ?case by (simp add: dueLevels_def)
next
  case (Cons i rest)
  let ?level = "dm_levels s ! i"
  let ?s1 = "snd (triggerLevel now i ?level s)"
  have d: "distinct rest" and ni: "i \<notin> set rest" using Cons.prems by auto
  show ?case
  proof (cases "dm_currentDrawdown s \<le> dl_percent ?level \<and> i \<notin> set (dm_triggeredLevels s)")
    case True
    have eq: "dueLevels ?s1 rest = dueLevels s rest"
      using ni by (intro dueLevels_cong triggerLevel_figures) (auto simp: triggerLevel_triggered)
    have "dm_triggeredLevels (snd (checkLevelsLoop now rest ?s1))
            = (dm_triggeredLevels s @ [i]) @ dueLevels s rest"
      using Cons.IH[OF d, of ?s1] by (simp add: triggerLevel_triggered eq)
    moreover have "dueLevels s (i # rest) = i # dueLevels s rest"
      using True by (simp add: dueLevels_def)
    ultimately show ?thesis using True by (auto simp: Let_def split: prod.splits)
  next
    case False
    then have "dueLevels s (i # rest) = dueLevels s rest" by (auto simp: dueLevels_def)
    then show ?thesis using False Cons.IH[OF d, of s] by (auto simp: Let_def)
  qed
qed

lemma loop_effects:
  "distinct idxs \<Longrightarrow>
   fst (checkLevelsLoop now idxs s) =
     concat (map (\<lambda>i. fst (triggerLevel now i (dm_levels s ! i) s)) (dueLevels s idxs))"
proof (induction idxs arbitrary: s)
  case Nil
  show ?case by (simp add: dueLevels_def)
next
  case (Cons i rest)
  let ?level = "dm_levels s ! i"
  let ?s1 = "snd (triggerLevel now i ?level s)"
  have d: "distinct rest" and ni: "i \<notin> set rest" using Cons.prems by auto
  show ?case
  proof (cases "dm_currentDrawdown s \<le> dl_percent ?level \<and> i \<notin> set (dm_triggeredLevels s)")
    case True
    have fig: "same_figures s ?s1" by (rule triggerLevel_figures)
    have eq: "dueLevels ?s1 rest = dueLevels s rest"
      using ni by (intro dueLevels_cong fig) (auto simp: triggerLevel_triggered)
    have lv: "dm_levels ?s1 = dm_levels s" using fig by (simp add: same_figures_def)
    have "fst (checkLevelsLoop now rest ?s1) =
            concat (map (\<lambda>j. fst (triggerLevel now j (dm_levels s ! j) s)) (dueLevels s rest))"
      using Cons.IH[OF d, of ?s1] by (simp add: eq lv triggerLevel_effects_cong[OF fig])
    moreover have "dueLevels s (i # rest) = i # dueLevels s rest"
      using True by (simp add: dueLevels_def)
    ultimately show ?thesis using True by (auto simp: Let_def split: prod.splits)
  next
    case False
    then have "dueLevels s (i # rest) = dueLevels s rest" by (auto simp: dueLevels_def)
    then show ?thesis using False Cons.IH[OF d, of s] by (auto simp: Let_def)
  qed
qed

lemma recompute_levels: "dm_levels (recomputeDrawdown c s) = dm_levels s"
  by (simp add: recomputeDrawdown_def Let_def)

lemma recompute_triggered: "dm_triggeredLevels (recomputeDrawdown c s) = dm_triggeredLevels s"
  by (simp add: recomputeDrawdown_def Let_def)

lemma recompute_peak:
  "dm_peakCapital (recomputeDrawdown c s) = (if c > dm_peakCapital s then c else dm_peakCapital s)"
  by (simp add: recomputeDrawdown_def Let_def)

lemma recompute_current: "dm_currentCapital (recomputeDrawdown c s) = c"
  by (simp add: recomputeDrawdown_def Let_def)

lemma recompute_drawdown:
  "dm_currentDrawdown (recomputeDrawdown c s) =
     (c - dm_peakCapital (recomputeDrawdown c s)) / dm_peakCapital (recomputeDrawdown c s)"
  by (simp add: recomputeDrawdown_def Let_def)

lemma dm_updateCapital_figures:
  "same_figures (recomputeDrawdown c s) (snd (dm_updateCapital now c s))"
  by (simp add: dm_updateCapital_def checkDrawdownLevels_def loop_figures)

lemma dm_updateCapital_triggered:
  "dm_triggeredLevels (snd (dm_updateCapital now c s)) =
     dm_triggeredLevels s @
     dueLevels (recomputeDrawdown c s) [0 ..< length (dm_levels s)]"
  by (simp add: dm_updateCapital_def checkDrawdownLevels_def loop_triggered recompute_levels
      recompute_triggered)

lemma dm_updateCapital_effects:
  "fst (dm_updateCapital now c s) =
     concat (map (\<lambda>i. fst (triggerLevel now i (dm_levels s ! i) (recomputeDrawdown c s)))
       (dueLevels (recomputeDrawdown c s) [0 ..< length (dm_levels s)]))"
  by (simp add: dm_updateCapital_def checkDrawdownLevels_def loop_effects recompute_levels)

lemma levelsFired_concat_trigger:
  "levelsFired (concat (map (\<lambda>i. fst (triggerLevel now i (f i) s)) ds)) = map Suc ds"
  by (induction ds) (simp_all add: levelsFired_append triggerLevel_fired)

lemma dm_updateCapital_fired:
  "levelsFired (fst (dm_updateCapital now c s)) =
     map Suc (dueLevels (recomputeDrawdown c s) [0 ..< length (dm_levels s)])"
  by (simp add: dm_updateCapital_effects levelsFired_concat_trigger)

lemma dueLevels_upt_set:
  "set (dueLevels s [0 ..< n]) =
     {i. i < n \<and> dm_currentDrawdown s \<le> dl_percent (dm_levels s ! i) \<and>
         i \<notin> set (dm_triggeredLevels s)}"
  by (auto simp: dueLevels_def)

lemma dueLevels_upt_sorted: "sorted_wrt (<) (dueLevels s [0 ..< n])"
  by (simp add: dueLevels_def sorted_wrt_filter)

subsection \<open>The code against the written-out firing\<close>

lemma executeAction_spec:
  "executeAction now level s =
     (actionEffects (dm_currentDrawdown s) level,
      if pausing level
      then s\<lparr> dm_isPaused := True, dm_pauseUntil := Some (now + the (dl_duration level) * 1000) \<rparr>
      else s)"
  by (cases "dl_duration level")
     (auto simp: executeAction_def pauseTrading_def resetToConservative_def stopCompletely_def
        actionEffects_def pausing_def truthy_num_def)

lemma triggerLevel_spec:
  "triggerLevel now i (dm_levels s ! i) s =
     (levelBlock (dm_levels s) (dm_currentDrawdown s) (dm_peakCapital s) (dm_currentCapital s) i,
      applyLevel now s i)"
  by (simp add: triggerLevel_def executeAction_spec levelBlock_def applyLevel_def Let_def)

lemma applyLevel_figures: "same_figures s (applyLevel now s i)"
  by (simp add: applyLevel_def same_figures_def)

lemma applyLevel_triggered: "dm_triggeredLevels (applyLevel now s i) = dm_triggeredLevels s @ [i]"
  by (simp add: applyLevel_def)

lemma loop_spec:
  "distinct idxs \<Longrightarrow>
   checkLevelsLoop now idxs s =
     (concat (map (levelBlock (dm_levels s) (dm_currentDrawdown s) (dm_peakCapital s)
                     (dm_currentCapital s)) (dueLevels s idxs)),
      foldl (applyLevel now) s (dueLevels s idxs))"
proof (induction idxs arbitrary: s)
  case Nil
  show ?case by (simp add: dueLevels_def)
next
  case (Cons i rest)
  let ?s1 = "applyLevel now s i"
  have d: "distinct rest" and ni: "i \<notin> set rest" using Cons.prems by auto
  show ?case
  proof (cases "dm_currentDrawdown s \<le> dl_percent (dm_levels s ! i) \<and> i \<notin> set (dm_triggeredLevels s)")
    case True
    have fig: "same_figures s ?s1" by (rule applyLevel_figures)
    have eq: "dueLevels ?s1 rest = dueLevels s rest"
      using ni by (intro dueLevels_cong fig) (auto simp: applyLevel_triggered)
    have f: "dm_levels ?s1 = dm_levels s" "dm_currentDrawdown ?s1 = dm_currentDrawdown s"
      "dm_peakCapital ?s1 = dm_peakCapital s" "dm_currentCapital ?s1 = dm_currentCapital s"
      using fig by (simp_all add: same_figures_def)
    have due: "dueLevels s (i # rest) = i # dueLevels s rest"
      using True by (simp add: dueLevels_def)
    show ?thesis
      using True Cons.IH[OF d, of ?s1]
      by (simp add: triggerLevel_spec eq f due)
  next
    case False
    then have "dueLevels s (i # rest) = dueLevels s rest" by (auto simp: dueLevels_def)
    then show ?thesis using False Cons.IH[OF d, of s] by (auto simp: Let_def)
  qed
qed

lemma dm_updateCapital_spec:
  "dm_updateCapital now c s =
     (concat (map (levelBlock (dm_levels s) (dm_currentDrawdown (recomputeDrawdown c s))
                     (dm_peakCapital (recomputeDrawdown c s)) (dm_currentCapital (recomputeDrawdown c s)))
                (dueLevels (recomputeDrawdown c s) [0 ..< length (dm_levels s)])),
      foldl (applyLevel now) (recomputeDrawdown c s)
        (dueLevels (recomputeDrawdown c s) [0 ..< length (dm_levels s)]))"
  by (simp add: dm_updateCapital_def checkDrawdownLevels_def loop_spec recompute_levels)

lemma foldl_applyLevel_levels: "dm_levels (foldl (applyLevel now) s due) = dm_levels s"
  by (induction due arbitrary: s) (simp_all add: applyLevel_def)

lemma foldl_applyLevel_figures: "same_figures s (foldl (applyLevel now) s due)"
proof (induction due arbitrary: s)
  case Nil
  show ?case by (simp add: same_figures_refl)
next
  case (Cons i due)
  show ?case using Cons.IH[of "applyLevel now s i"] applyLevel_figures[of s now i]
    by (auto intro: same_figures_trans)
qed

lemma foldl_applyLevel_triggered:
  "dm_triggeredLevels (foldl (applyLevel now) s due) = dm_triggeredLevels s @ due"
  by (induction due arbitrary: s) (simp_all add: applyLevel_triggered)

lemma foldl_applyLevel_paused:
  "dm_isPaused (foldl (applyLevel now) s due) \<longleftrightarrow>
     dm_isPaused s \<or> (\<exists>i \<in> set due. pausing (dm_levels s ! i))"
proof (induction due arbitrary: s)
  case Nil
  show ?case by simp
next
  case (Cons i due)
  have l: "dm_levels (applyLevel now s i) = dm_levels s" by (simp add: applyLevel_def)
  have p: "dm_isPaused (applyLevel now s i) \<longleftrightarrow> dm_isPaused s \<or> pausing (dm_levels s ! i)"
    by (simp add: applyLevel_def)
  show ?case using Cons.IH[of "applyLevel now s i"] by (auto simp: l p)
qed

lemma foldl_applyLevel_last:
  assumes "due \<noteq> []"
  shows "dm_currentLevel (foldl (applyLevel now) s due) = Some (Suc (last due)) \<and>
         (pausing (dm_levels s ! last due) \<longrightarrow>
            dm_pauseUntil (foldl (applyLevel now) s due) =
              Some (now + the (dl_duration (dm_levels s ! last due)) * 1000))"
proof -
  obtain xs x where due: "due = xs @ [x]" using assms by (cases due rule: rev_cases) auto
  have l: "dm_levels (foldl (applyLevel now) s xs) = dm_levels s" by (rule foldl_applyLevel_levels)
  show ?thesis unfolding due by (simp add: applyLevel_def l)
qed

lemma filter_levelBlock:
  "filter (\<lambda>e. e \<noteq> EmitBotResumed) (levelBlock levels d p c i) = levelBlock levels d p c i"
  by (simp add: levelBlock_def actionEffects_def)

lemma levelsFired_levelBlock: "levelsFired (levelBlock levels d p c i) = [Suc i]"
  by (simp add: levelBlock_def actionEffects_def)

subsection \<open>Runs\<close>

lemma dm_inv_figures: "same_figures s t \<Longrightarrow> dm_inv s \<Longrightarrow> dm_inv t"
  by (simp add: same_figures_def dm_inv_def)

lemma dm_inv_recompute: "0 < dm_peakCapital s \<Longrightarrow> dm_inv (recomputeDrawdown c s)"
  by (simp add: dm_inv_def recompute_peak recompute_current recompute_drawdown)

lemma isTradingPaused_figures: "same_figures s (snd (snd (isTradingPaused now s)))"
  using resumeTrading_figures[of s] by (simp add: isTradingPaused_def same_figures_refl)

lemma dm_step_peak:
  "dm_peakCapital s \<le> dm_peakCapital (snd (dm_step c s))"
proof (cases c)
  case (UpdateCapital now newCapital)
  have "dm_peakCapital (snd (dm_updateCapital now newCapital s)) =
          dm_peakCapital (recomputeDrawdown newCapital s)"
    using dm_updateCapital_figures[of newCapital s now] by (simp add: same_figures_def)
  then show ?thesis using UpdateCapital by (simp add: recompute_peak)
next
  case ResumeTrading
  then show ?thesis using resumeTrading_figures[of s] by (simp add: same_figures_def)
next
  case (IsTradingPaused now)
  then show ?thesis using isTradingPaused_figures[of s now] by (simp add: same_figures_def)
qed

lemma dm_step_inv: "dm_inv s \<Longrightarrow> dm_inv (snd (dm_step c s))"
proof (cases c)
  case (UpdateCapital now newCapital)
  assume "dm_inv s"
  then have "dm_inv (recomputeDrawdown newCapital s)"
    by (intro dm_inv_recompute) (simp add: dm_inv_def)
  then show ?thesis using UpdateCapital dm_updateCapital_figures[of newCapital s now]
    by (auto intro: dm_inv_figures)
next
  case ResumeTrading
  assume "dm_inv s"
  then show ?thesis using ResumeTrading resumeTrading_figures[of s]
    by (auto intro: dm_inv_figures)
next
  case (IsTradingPaused now)
  assume "dm_inv s"
  then show ?thesis using IsTradingPaused isTradingPaused_figures[of s now]
    by (auto intro: dm_inv_figures)
qed

lemma dm_run_snd_Cons: "snd (dm_run (c # cs) s) = snd (dm_run cs (snd (dm_step c s)))"
  by (simp add: Let_def split: prod.splits)

lemma dm_run_fst_Cons:
  "fst (dm_run (c # cs) s) = fst (dm_step c s) @ fst (dm_run cs (snd (dm_step c s)))"
  by (simp add: Let_def split: prod.splits)

lemma dm_run_snd_append: "snd (dm_run (a @ b) s) = snd (dm_run b (snd (dm_run a s)))"
  by (induction a arbitrary: s) (simp_all add: dm_run_snd_Cons del: dm_run.simps(2))

lemma dm_run_peak: "dm_peakCapital s \<le> dm_peakCapital (snd (dm_run cs s))"
proof (induction cs arbitrary: s)
  case Nil
  show ?case by simp
next
  case (Cons c cs)
  show ?case using dm_step_peak[of s c] Cons.IH[of "snd (dm_step c s)"]
    by (simp add: dm_run_snd_Cons del: dm_run.simps(2))
qed

lemma dm_run_inv: "dm_inv s \<Longrightarrow> dm_inv (snd (dm_run cs s))"
  by (induction cs arbitrary: s) (simp_all add: dm_run_snd_Cons dm_step_inv del: dm_run.simps(2))

lemma dm_inv_new: "0 < initialCapital \<Longrightarrow> dm_inv (DrawdownManager_new initialCapital levels)"
  by (simp add: dm_inv_def DrawdownManager_new_def)

lemma dm_inv_reset: "0 < initialCapital \<Longrightarrow> dm_inv (dm_reset initialCapital t)"
  by (simp add: dm_inv_def dm_reset_def)

lemma dm_inv_drawdown: "dm_inv s \<Longrightarrow> dm_currentDrawdown s \<le> 0"
  by (simp add: dm_inv_def divide_le_0_iff)

lemma dueLevels_distinct: "distinct idxs \<Longrightarrow> distinct (dueLevels s idxs)"
  by (simp add: dueLevels_def)

lemma dueLevels_fresh: "i \<in> set (dueLevels s idxs) \<Longrightarrow> i \<notin> set (dm_triggeredLevels s)"
  by (simp add: dueLevels_def)

lemma dm_step_fired:
  "\<exists>ds. levelsFired (fst (dm_step c s)) = map Suc ds \<and>
        dm_triggeredLevels (snd (dm_step c s)) = dm_triggeredLevels s @ ds \<and>
        distinct ds \<and> set ds \<inter> set (dm_triggeredLevels s) = {}"
proof (cases c)
  case (UpdateCapital now newCapital)
  let ?ds = "dueLevels (recomputeDrawdown newCapital s) [0 ..< length (dm_levels s)]"
  have "distinct ?ds" by (simp add: dueLevels_distinct)
  moreover have "set ?ds \<inter> set (dm_triggeredLevels s) = {}"
    using dueLevels_fresh[of _ "recomputeDrawdown newCapital s"] by (auto simp: recompute_triggered)
  ultimately show ?thesis using UpdateCapital
    by (intro exI[of _ ?ds]) (simp add: dm_updateCapital_fired dm_updateCapital_triggered)
next
  case ResumeTrading
  then show ?thesis by (intro exI[of _ "[]"]) (simp add: resumeTrading_fired resumeTrading_triggered)
next
  case (IsTradingPaused now)
  then show ?thesis
    by (intro exI[of _ "[]"])
       (simp add: isTradingPaused_def resumeTrading_fired resumeTrading_triggered)
qed

lemma dm_run_fired:
  "\<exists>ds. levelsFired (fst (dm_run cs s)) = map Suc ds \<and>
        dm_triggeredLevels (snd (dm_run cs s)) = dm_triggeredLevels s @ ds \<and>
        distinct ds \<and> set ds \<inter> set (dm_triggeredLevels s) = {}"
proof (induction cs arbitrary: s)
  case Nil
  show ?case by simp
next
  case (Cons c cs)
  obtain d1 where d1: "levelsFired (fst (dm_step c s)) = map Suc d1"
      "dm_triggeredLevels (snd (dm_step c s)) = dm_triggeredLevels s @ d1"
      "distinct d1" "set d1 \<inter> set (dm_triggeredLevels s) = {}"
    using dm_step_fired[of c s] by blast
  obtain d2 where d2: "levelsFired (fst (dm_run cs (snd (dm_step c s)))) = map Suc d2"
      "dm_triggeredLevels (snd (dm_run cs (snd (dm_step c s)))) = dm_triggeredLevels (snd (dm_step c s)) @ d2"
      "distinct d2" "set d2 \<inter> set (dm_triggeredLevels (snd (dm_step c s))) = {}"
    using Cons.IH[of "snd (dm_step c s)"] by blast
  have "distinct (d1 @ d2)" "set (d1 @ d2) \<inter> set (dm_triggeredLevels s) = {}"
    using d1 d2 by auto
  then show ?case using d1 d2
    by (intro exI[of _ "d1 @ d2"])
       (simp add: dm_run_fst_Cons dm_run_snd_Cons levelsFired_append del: dm_run.simps(2))
qed

subsection \<open>Peak and drawdown\<close>

text \<open>
  Claim C1. After construction or reset with a positive initial capital, along every
  sequence of calls the peak capital never decreases, \<open>updateCapital\<close> raises it exactly
  when the new capital exceeds it, and after every call the drawdown is
  \<open>(currentCapital - peakCapital) / peakCapital\<close> and at most 0.
\<close>

theorem peak_monotone_drawdown_nonpositive:
  assumes pos: "0 < initialCapital"
    and start: "s0 = DrawdownManager_new initialCapital levels \<or> s0 = dm_reset initialCapital t"
  shows "let s = snd (dm_run cs s0);
             s' = snd (dm_run (cs @ cs') s0);
             u = snd (dm_updateCapital now newCapital s)
         in dm_peakCapital s \<le> dm_peakCapital s' \<and>
            dm_currentDrawdown s = (dm_currentCapital s - dm_peakCapital s) / dm_peakCapital s \<and>
            dm_currentDrawdown s \<le> 0 \<and>
            dm_peakCapital u = (if newCapital > dm_peakCapital s then newCapital else dm_peakCapital s) \<and>
            dm_currentCapital u = newCapital \<and>
            dm_currentDrawdown u = (newCapital - dm_peakCapital u) / dm_peakCapital u \<and>
            dm_currentDrawdown u \<le> 0"
proof -
  have i0: "dm_inv s0" using pos start dm_inv_new dm_inv_reset by blast
  let ?s = "snd (dm_run cs s0)"
  let ?u = "snd (dm_updateCapital now newCapital ?s)"
  have i: "dm_inv ?s" using i0 by (rule dm_run_inv)
  have fig: "same_figures (recomputeDrawdown newCapital ?s) ?u" by (rule dm_updateCapital_figures)
  have iu: "dm_inv ?u" using dm_step_inv[OF i, of "UpdateCapital now newCapital"] by simp
  have "dm_peakCapital ?s \<le> dm_peakCapital (snd (dm_run (cs @ cs') s0))"
    by (simp add: dm_run_snd_append dm_run_peak)
  moreover have "dm_peakCapital ?u = (if newCapital > dm_peakCapital ?s then newCapital else dm_peakCapital ?s)"
    using fig by (simp add: same_figures_def recompute_peak)
  moreover have cu: "dm_currentCapital ?u = newCapital"
    using fig by (simp add: same_figures_def recompute_current)
  moreover have "dm_currentDrawdown ?u = (newCapital - dm_peakCapital ?u) / dm_peakCapital ?u"
    using iu cu by (simp add: dm_inv_def)
  ultimately show ?thesis using i iu dm_inv_drawdown[OF i] dm_inv_drawdown[OF iu]
    by (simp add: Let_def dm_inv_def)
qed

theorem peak_monotone_drawdown_nonpositive_witness:
  "(0::real) < 100 \<and>
   dm_peakCapital (snd (dm_run [UpdateCapital 0 120] (DrawdownManager_new 100 exampleLevels))) = 120 \<and>
   dm_peakCapital (snd (dm_updateCapital 2 90
     (snd (dm_run [UpdateCapital 0 120] (DrawdownManager_new 100 exampleLevels))))) = 120 \<and>
   dm_currentDrawdown (snd (dm_updateCapital 2 90
     (snd (dm_run [UpdateCapital 0 120] (DrawdownManager_new 100 exampleLevels))))) = - (1 / 4)"
  using peak_monotone_drawdown_nonpositive
    [where initialCapital = 100 and levels = exampleLevels
       and ?s0.0 = "DrawdownManager_new 100 exampleLevels"
       and cs = "[UpdateCapital 0 120]" and cs' = "[]" and now = 2 and newCapital = 90]
  by (simp add: Let_def dm_updateCapital_def checkDrawdownLevels_def recomputeDrawdown_def
      DrawdownManager_new_def exampleLevels_def upt_rec)

subsection \<open>One shot per level\<close>

lemma filter_concat_blocks:
  "filter (\<lambda>e. e \<noteq> EmitBotResumed) (concat (map (levelBlock levels d p c) due)) =
     concat (map (firedBlock levels) (map (\<lambda>i. (i, d, p, c)) due))"
  by (induction due) (simp_all add: filter_levelBlock firedBlock_def)

lemma dm_step_blocks:
  "\<exists>fired. filter (\<lambda>e. e \<noteq> EmitBotResumed) (fst (dm_step c s)) =
             concat (map (firedBlock (dm_levels s)) fired) \<and>
           dm_triggeredLevels (snd (dm_step c s)) = dm_triggeredLevels s @ map fst fired \<and>
           distinct (map fst fired) \<and> set (map fst fired) \<inter> set (dm_triggeredLevels s) = {} \<and>
           dm_levels (snd (dm_step c s)) = dm_levels s"
proof (cases c)
  case (UpdateCapital now newCapital)
  let ?s1 = "recomputeDrawdown newCapital s"
  let ?due = "dueLevels ?s1 [0 ..< length (dm_levels s)]"
  let ?fired = "map (\<lambda>i. (i, dm_currentDrawdown ?s1, dm_peakCapital ?s1, dm_currentCapital ?s1)) ?due"
  have m: "map fst ?fired = ?due" by (simp add: comp_def)
  have "distinct ?due" by (simp add: dueLevels_distinct)
  moreover have "set ?due \<inter> set (dm_triggeredLevels s) = {}"
    using dueLevels_fresh[of _ ?s1] by (auto simp: recompute_triggered)
  ultimately show ?thesis using UpdateCapital
    by (intro exI[of _ ?fired])
       (simp only: m dm_step.simps dm_updateCapital_spec fst_conv snd_conv filter_concat_blocks
          foldl_applyLevel_triggered foldl_applyLevel_levels recompute_levels recompute_triggered
          simp_thms)
next
  case ResumeTrading
  then show ?thesis by (intro exI[of _ "[]"]) (simp add: resumeTrading_def)
next
  case (IsTradingPaused now)
  then show ?thesis
    by (intro exI[of _ "[]"]) (simp add: isTradingPaused_def resumeTrading_def)
qed

lemma dm_run_blocks:
  "\<exists>fired. filter (\<lambda>e. e \<noteq> EmitBotResumed) (fst (dm_run cs s)) =
             concat (map (firedBlock (dm_levels s)) fired) \<and>
           dm_triggeredLevels (snd (dm_run cs s)) = dm_triggeredLevels s @ map fst fired \<and>
           distinct (map fst fired) \<and> set (map fst fired) \<inter> set (dm_triggeredLevels s) = {} \<and>
           dm_levels (snd (dm_run cs s)) = dm_levels s"
proof (induction cs arbitrary: s)
  case Nil
  show ?case by (intro exI[of _ "[]"]) simp
next
  case (Cons c cs)
  let ?s1 = "snd (dm_step c s)"
  obtain f1 where f1: "filter (\<lambda>e. e \<noteq> EmitBotResumed) (fst (dm_step c s)) =
             concat (map (firedBlock (dm_levels s)) f1)"
      "dm_triggeredLevels ?s1 = dm_triggeredLevels s @ map fst f1"
      "distinct (map fst f1)" "set (map fst f1) \<inter> set (dm_triggeredLevels s) = {}"
      "dm_levels ?s1 = dm_levels s"
    using dm_step_blocks[of c s] by blast
  obtain f2 where f2: "filter (\<lambda>e. e \<noteq> EmitBotResumed) (fst (dm_run cs ?s1)) =
             concat (map (firedBlock (dm_levels ?s1)) f2)"
      "dm_triggeredLevels (snd (dm_run cs ?s1)) = dm_triggeredLevels ?s1 @ map fst f2"
      "distinct (map fst f2)" "set (map fst f2) \<inter> set (dm_triggeredLevels ?s1) = {}"
      "dm_levels (snd (dm_run cs ?s1)) = dm_levels ?s1"
    using Cons.IH[of ?s1] by blast
  have d: "distinct (map fst (f1 @ f2))" "set (map fst (f1 @ f2)) \<inter> set (dm_triggeredLevels s) = {}"
    using f1(2,3,4) f2(3,4) by auto
  show ?case
    using f1(1,2,5) f2(1,2,5) d
    by (intro exI[of _ "f1 @ f2"])
       (simp add: dm_run_fst_Cons dm_run_snd_Cons del: dm_run.simps(2))
qed

lemma dm_step_firingStep: "dm_step c s = firingStep c s"
proof (cases c)
  case (UpdateCapital now newCapital)
  then show ?thesis by (simp add: dm_updateCapital_spec Let_def)
next
  case ResumeTrading
  then show ?thesis by (simp add: resumeTrading_def endPause_def)
next
  case (IsTradingPaused now)
  then show ?thesis by (simp add: isTradingPaused_def resumeTrading_def endPause_def)
qed

lemma dm_run_firingRun: "dm_run cs s = firingRun cs s"
  by (induction cs arbitrary: s) (simp_all add: dm_step_firingStep Let_def split: prod.splits)

text \<open>
  Claim C3. Along every sequence of calls without a reset, each level's action is executed
  at most once. A run is, in its effects and in its state, the run in which a level fires
  only when it is reached and not yet in \<open>triggeredLevels\<close>. Apart from the resume
  events, the effects of a run are a sequence of blocks, one for each firing, each made of
  the level's event followed by the effects of the level's action and nothing else; the
  levels of these firings are pairwise different, none of them was in \<open>triggeredLevels\<close>
  at the start, and all of them are in it at the end. One call of \<open>updateCapital\<close> does
  exactly the firings of the levels that are reached and not yet in \<open>triggeredLevels\<close>:
  for a level that is in \<open>triggeredLevels\<close> it emits nothing and changes nothing, however
  the drawdown has moved in between, and when no other level is reached the call only
  recomputes the capital figures and leaves the pause, the current level and
  \<open>triggeredLevels\<close> as they were. The other calls of a run, \<open>resumeTrading\<close> and
  \<open>isTradingPaused\<close>, can only end a pause.
\<close>

theorem drawdown_level_fires_at_most_once:
  "let es = fst (dm_run cs s); s' = snd (dm_run cs s);
       t1 = recomputeDrawdown newCapital t;
       due = dueLevels t1 [0 ..< length (dm_levels t)]
   in dm_run cs s = firingRun cs s \<and>
      (\<exists>fired. filter (\<lambda>e. e \<noteq> EmitBotResumed) es = concat (map (firedBlock (dm_levels s)) fired) \<and>
         distinct (map fst fired) \<and>
         (\<forall>i \<in> set (dm_triggeredLevels s). i \<notin> set (map fst fired)) \<and>
         dm_triggeredLevels s' = dm_triggeredLevels s @ map fst fired) \<and>
      distinct (levelsFired es) \<and>
      (\<forall>i \<in> set (dm_triggeredLevels s). Suc i \<notin> set (levelsFired es)) \<and>
      set (dm_triggeredLevels s') = set (dm_triggeredLevels s) \<union> {i. Suc i \<in> set (levelsFired es)} \<and>
      dm_updateCapital now newCapital t =
        (concat (map (levelBlock (dm_levels t) (dm_currentDrawdown t1) (dm_peakCapital t1)
                        (dm_currentCapital t1)) due),
         foldl (applyLevel now) t1 due) \<and>
      (\<forall>i \<in> set (dm_triggeredLevels t). i \<notin> set due) \<and>
      (due = [] \<longrightarrow> dm_updateCapital now newCapital t = ([], t1)) \<and>
      dm_isPaused t1 = dm_isPaused t \<and> dm_pauseUntil t1 = dm_pauseUntil t \<and>
      dm_currentLevel t1 = dm_currentLevel t \<and> dm_triggeredLevels t1 = dm_triggeredLevels t \<and>
      resumeTrading t =
        (if dm_isPaused t then ([EmitBotResumed], t\<lparr> dm_isPaused := False, dm_pauseUntil := None \<rparr>)
         else ([], t)) \<and>
      (snd (isTradingPaused now t) = ([], t) \<or> snd (isTradingPaused now t) = resumeTrading t)"
proof -
  obtain fired where fired:
      "filter (\<lambda>e. e \<noteq> EmitBotResumed) (fst (dm_run cs s)) = concat (map (firedBlock (dm_levels s)) fired)"
      "dm_triggeredLevels (snd (dm_run cs s)) = dm_triggeredLevels s @ map fst fired"
      "distinct (map fst fired)" "set (map fst fired) \<inter> set (dm_triggeredLevels s) = {}"
    using dm_run_blocks[of cs s] by blast
  have a: "\<exists>fired. filter (\<lambda>e. e \<noteq> EmitBotResumed) (fst (dm_run cs s)) =
             concat (map (firedBlock (dm_levels s)) fired) \<and>
         distinct (map fst fired) \<and>
         (\<forall>i \<in> set (dm_triggeredLevels s). i \<notin> set (map fst fired)) \<and>
         dm_triggeredLevels (snd (dm_run cs s)) = dm_triggeredLevels s @ map fst fired"
    using fired by (intro exI[of _ fired]) auto
  obtain ds where ds: "levelsFired (fst (dm_run cs s)) = map Suc ds"
      "dm_triggeredLevels (snd (dm_run cs s)) = dm_triggeredLevels s @ ds"
      "distinct ds" "set ds \<inter> set (dm_triggeredLevels s) = {}"
    using dm_run_fired[of cs s] by blast
  then have b: "distinct (levelsFired (fst (dm_run cs s)))"
    and c: "\<forall>i \<in> set (dm_triggeredLevels s). Suc i \<notin> set (levelsFired (fst (dm_run cs s)))"
    and d: "set (dm_triggeredLevels (snd (dm_run cs s))) =
              set (dm_triggeredLevels s) \<union> {i. Suc i \<in> set (levelsFired (fst (dm_run cs s)))}"
    by (auto simp: distinct_map)
  let ?t1 = "recomputeDrawdown newCapital t"
  let ?due = "dueLevels ?t1 [0 ..< length (dm_levels t)]"
  have e: "dm_updateCapital now newCapital t =
        (concat (map (levelBlock (dm_levels t) (dm_currentDrawdown ?t1) (dm_peakCapital ?t1)
                        (dm_currentCapital ?t1)) ?due),
         foldl (applyLevel now) ?t1 ?due)"
    by (rule dm_updateCapital_spec)
  have f: "\<forall>i \<in> set (dm_triggeredLevels t). i \<notin> set ?due"
    using dueLevels_fresh[of _ ?t1] by (auto simp: recompute_triggered)
  have g: "?due = [] \<longrightarrow> dm_updateCapital now newCapital t = ([], ?t1)"
    by (simp add: dm_updateCapital_spec)
  have h: "dm_isPaused ?t1 = dm_isPaused t" "dm_pauseUntil ?t1 = dm_pauseUntil t"
    "dm_currentLevel ?t1 = dm_currentLevel t" "dm_triggeredLevels ?t1 = dm_triggeredLevels t"
    by (simp_all add: recomputeDrawdown_def Let_def)
  have i: "resumeTrading t =
        (if dm_isPaused t then ([EmitBotResumed], t\<lparr> dm_isPaused := False, dm_pauseUntil := None \<rparr>)
         else ([], t))"
    by (simp add: resumeTrading_def)
  have j: "snd (isTradingPaused now t) = ([], t) \<or> snd (isTradingPaused now t) = resumeTrading t"
    by (simp add: isTradingPaused_def)
  show ?thesis unfolding Let_def by (intro conjI dm_run_firingRun a b c d e f g h i j)
qed

theorem drawdown_level_fires_at_most_once_witness:
  "dm_run [UpdateCapital 0 94, UpdateCapital 1 100, UpdateCapital 2 94]
     (DrawdownManager_new 100 exampleLevels) =
     ([EmitDrawdownLevel (Some ''risk.drawdown.level1'') 1 6 100 94 ''pause'' (Some 1800),
       SetTimeoutResume 1800000],
      \<lparr> dm_initialCapital = 100, dm_peakCapital = 100, dm_currentCapital = 94,
        dm_currentDrawdown = - (3 / 50), dm_maxDrawdownReached = - (3 / 50),
        dm_levels = exampleLevels, dm_triggeredLevels = [0],
        dm_isPaused = True, dm_pauseUntil = Some 1800000, dm_currentLevel = Some 1 \<rparr>) \<and>
   dm_run [UpdateCapital 1 100, ResumeTrading, UpdateCapital 2 94]
     (snd (dm_updateCapital 0 94 (DrawdownManager_new 100 exampleLevels))) =
     ([EmitBotResumed],
      \<lparr> dm_initialCapital = 100, dm_peakCapital = 100, dm_currentCapital = 94,
        dm_currentDrawdown = - (3 / 50), dm_maxDrawdownReached = - (3 / 50),
        dm_levels = exampleLevels, dm_triggeredLevels = [0],
        dm_isPaused = False, dm_pauseUntil = None, dm_currentLevel = Some 1 \<rparr>)"
proof -
  have a: "dm_run [UpdateCapital 0 94, UpdateCapital 1 100, UpdateCapital 2 94]
     (DrawdownManager_new 100 exampleLevels) =
     ([EmitDrawdownLevel (Some ''risk.drawdown.level1'') 1 6 100 94 ''pause'' (Some 1800),
       SetTimeoutResume 1800000],
      \<lparr> dm_initialCapital = 100, dm_peakCapital = 100, dm_currentCapital = 94,
        dm_currentDrawdown = - (3 / 50), dm_maxDrawdownReached = - (3 / 50),
        dm_levels = exampleLevels, dm_triggeredLevels = [0],
        dm_isPaused = True, dm_pauseUntil = Some 1800000, dm_currentLevel = Some 1 \<rparr>)"
    by (simp add: dm_updateCapital_def checkDrawdownLevels_def recomputeDrawdown_def
      DrawdownManager_new_def exampleLevels_def triggerLevel_def executeAction_def
      pauseTrading_def resetToConservative_def stopCompletely_def eventName_def truthy_num_def
      upt_rec Let_def)
  have b: "dm_run [UpdateCapital 1 100, ResumeTrading, UpdateCapital 2 94]
     (snd (dm_updateCapital 0 94 (DrawdownManager_new 100 exampleLevels))) =
     ([EmitBotResumed],
      \<lparr> dm_initialCapital = 100, dm_peakCapital = 100, dm_currentCapital = 94,
        dm_currentDrawdown = - (3 / 50), dm_maxDrawdownReached = - (3 / 50),
        dm_levels = exampleLevels, dm_triggeredLevels = [0],
        dm_isPaused = False, dm_pauseUntil = None, dm_currentLevel = Some 1 \<rparr>)"
    by (simp add: dm_updateCapital_def checkDrawdownLevels_def recomputeDrawdown_def
      DrawdownManager_new_def exampleLevels_def triggerLevel_def executeAction_def
      pauseTrading_def resetToConservative_def stopCompletely_def eventName_def truthy_num_def
      resumeTrading_def upt_rec Let_def)
  show ?thesis
    using a b drawdown_level_fires_at_most_once
      [of "[UpdateCapital 1 100, ResumeTrading, UpdateCapital 2 94]"
          "snd (dm_updateCapital 0 94 (DrawdownManager_new 100 exampleLevels))"
          94 "snd (dm_updateCapital 0 94 (DrawdownManager_new 100 exampleLevels))" 2]
    by blast
qed

subsection \<open>Several levels in one call\<close>

lemma levelsFired_concat_blocks:
  "levelsFired (concat (map (levelBlock levels d p c) due)) = map Suc due"
  by (induction due) (simp_all add: levelsFired_append levelsFired_levelBlock)

lemma updateCapital_example:
  "dm_updateCapital now 84 (DrawdownManager_new 100 exampleLevels) =
     ([EmitDrawdownLevel (Some ''risk.drawdown.level1'') 1 16 100 84 ''pause'' (Some 1800),
       SetTimeoutResume 1800000,
       EmitDrawdownLevel (Some ''risk.drawdown.level2'') 2 16 100 84 ''pause_and_reset'' (Some 7200),
       SetTimeoutResume 7200000,
       EmitStrategyChanged,
       EmitDrawdownLevel (Some ''risk.drawdown.level3'') 3 16 100 84 ''stop'' None,
       EmitBotStopped (- 16)],
      \<lparr> dm_initialCapital = 100, dm_peakCapital = 100, dm_currentCapital = 84,
        dm_currentDrawdown = - (4 / 25), dm_maxDrawdownReached = - (4 / 25),
        dm_levels = exampleLevels, dm_triggeredLevels = [0, 1, 2],
        dm_isPaused = True, dm_pauseUntil = Some (now + 7200000),
        dm_currentLevel = Some 3 \<rparr>)"
  by (simp add: dm_updateCapital_def checkDrawdownLevels_def recomputeDrawdown_def
      DrawdownManager_new_def exampleLevels_def triggerLevel_def executeAction_def
      pauseTrading_def resetToConservative_def stopCompletely_def eventName_def truthy_num_def
      Let_def upt_rec)

text \<open>
  Claim C7. One call of \<open>updateCapital\<close> (on a peak that is not 0) fires every level that
  the new drawdown reaches and that has not fired before, in ascending order of index, and
  each of them executes its configured action: the effects of the call are, level by level
  in that order, the level's event followed by the effects of its action (the timer of a
  pause, the strategy change of a reset, the stop event), and the state is the recomputed
  one with each of these levels applied in that order, so that the indices are appended to
  \<open>triggeredLevels\<close>, trading is paused as soon as one of the levels pauses, until the
  time the last pausing level sets, and the current level is the last one fired. With the
  levels -5% (pause), -10% (pause and reset) and -15% (stop), a peak of 100 and a drop to
  84, the levels 1, 2 and 3 fire in that order, the last action is the stop, and trading
  is paused for the 7200 seconds of level 2.
\<close>

theorem updateCapital_fires_due_levels_in_order:
  assumes "dm_peakCapital (recomputeDrawdown newCapital s) \<noteq> 0"
  shows "let s1 = recomputeDrawdown newCapital s;
             due = dueLevels s1 [0 ..< length (dm_levels s)];
             es = fst (dm_updateCapital now newCapital s);
             s' = snd (dm_updateCapital now newCapital s)
         in es = concat (map (levelBlock (dm_levels s) (dm_currentDrawdown s1) (dm_peakCapital s1)
                                (dm_currentCapital s1)) due) \<and>
            s' = foldl (applyLevel now) s1 due \<and>
            levelsFired es = map Suc due \<and>
            sorted_wrt (<) due \<and>
            set due = {i. i < length (dm_levels s) \<and>
                          dm_currentDrawdown s1 \<le> dl_percent (dm_levels s ! i) \<and>
                          i \<notin> set (dm_triggeredLevels s)} \<and>
            dm_triggeredLevels s' = dm_triggeredLevels s @ due \<and>
            same_figures s1 s' \<and>
            (dm_isPaused s' \<longleftrightarrow> dm_isPaused s \<or> (\<exists>i \<in> set due. pausing (dm_levels s ! i))) \<and>
            (due \<noteq> [] \<longrightarrow> dm_currentLevel s' = Some (Suc (last due))) \<and>
            (due \<noteq> [] \<and> pausing (dm_levels s ! last due) \<longrightarrow>
               dm_pauseUntil s' = Some (now + the (dl_duration (dm_levels s ! last due)) * 1000)) \<and>
            (due = [] \<longrightarrow> s' = s1) \<and>
            dm_updateCapital now 84 (DrawdownManager_new 100 exampleLevels) =
              ([EmitDrawdownLevel (Some ''risk.drawdown.level1'') 1 16 100 84 ''pause'' (Some 1800),
                SetTimeoutResume 1800000,
                EmitDrawdownLevel (Some ''risk.drawdown.level2'') 2 16 100 84 ''pause_and_reset'' (Some 7200),
                SetTimeoutResume 7200000,
                EmitStrategyChanged,
                EmitDrawdownLevel (Some ''risk.drawdown.level3'') 3 16 100 84 ''stop'' None,
                EmitBotStopped (- 16)],
               \<lparr> dm_initialCapital = 100, dm_peakCapital = 100, dm_currentCapital = 84,
                 dm_currentDrawdown = - (4 / 25), dm_maxDrawdownReached = - (4 / 25),
                 dm_levels = exampleLevels, dm_triggeredLevels = [0, 1, 2],
                 dm_isPaused = True, dm_pauseUntil = Some (now + 7200000),
                 dm_currentLevel = Some 3 \<rparr>)"
proof -
  let ?s1 = "recomputeDrawdown newCapital s"
  let ?due = "dueLevels ?s1 [0 ..< length (dm_levels s)]"
  let ?s' = "snd (dm_updateCapital now newCapital s)"
  have s': "?s' = foldl (applyLevel now) ?s1 ?due" by (simp add: dm_updateCapital_spec)
  have l1: "dm_levels ?s1 = dm_levels s" by (rule recompute_levels)
  have p1: "dm_isPaused ?s1 = dm_isPaused s" by (simp add: recomputeDrawdown_def Let_def)
  have a: "fst (dm_updateCapital now newCapital s) =
      concat (map (levelBlock (dm_levels s) (dm_currentDrawdown ?s1) (dm_peakCapital ?s1)
                                (dm_currentCapital ?s1)) ?due)"
    by (simp add: dm_updateCapital_spec)
  have b: "levelsFired (fst (dm_updateCapital now newCapital s)) = map Suc ?due"
    by (simp only: a levelsFired_concat_blocks)
  have c: "sorted_wrt (<) ?due" by (rule dueLevels_upt_sorted)
  have d: "set ?due = {i. i < length (dm_levels s) \<and>
                          dm_currentDrawdown ?s1 \<le> dl_percent (dm_levels s ! i) \<and>
                          i \<notin> set (dm_triggeredLevels s)}"
    by (simp only: dueLevels_upt_set recompute_levels recompute_triggered)
  have e: "dm_triggeredLevels ?s' = dm_triggeredLevels s @ ?due"
    by (simp only: s' foldl_applyLevel_triggered recompute_triggered)
  have f: "same_figures ?s1 ?s'" by (simp only: s' foldl_applyLevel_figures)
  have g: "dm_isPaused ?s' \<longleftrightarrow> dm_isPaused s \<or> (\<exists>i \<in> set ?due. pausing (dm_levels s ! i))"
    by (simp only: s' foldl_applyLevel_paused l1 p1)
  have h: "?due \<noteq> [] \<longrightarrow> dm_currentLevel ?s' = Some (Suc (last ?due))"
    using foldl_applyLevel_last[of ?due now ?s1] by (simp only: s') blast
  have i: "?due \<noteq> [] \<and> pausing (dm_levels s ! last ?due) \<longrightarrow>
               dm_pauseUntil ?s' = Some (now + the (dl_duration (dm_levels s ! last ?due)) * 1000)"
    using foldl_applyLevel_last[of ?due now ?s1] by (simp only: s' l1) blast
  have j: "?due = [] \<longrightarrow> ?s' = ?s1" by (simp add: s')
  show ?thesis unfolding Let_def by (intro conjI a s' b c d e f g h i j updateCapital_example)
qed

theorem updateCapital_fires_due_levels_in_order_witness:
  "dm_peakCapital (recomputeDrawdown 84 (DrawdownManager_new 100 exampleLevels)) \<noteq> 0 \<and>
   dueLevels (recomputeDrawdown 84 (DrawdownManager_new 100 exampleLevels)) [0 ..< 3] = [0, 1, 2] \<and>
   levelsFired (fst (dm_updateCapital 0 84 (DrawdownManager_new 100 exampleLevels))) = [1, 2, 3] \<and>
   dm_triggeredLevels (snd (dm_updateCapital 0 84 (DrawdownManager_new 100 exampleLevels))) = [0, 1, 2] \<and>
   dm_isPaused (snd (dm_updateCapital 0 84 (DrawdownManager_new 100 exampleLevels))) \<and>
   dm_pauseUntil (snd (dm_updateCapital 0 84 (DrawdownManager_new 100 exampleLevels))) = Some 7200000 \<and>
   dm_currentLevel (snd (dm_updateCapital 0 84 (DrawdownManager_new 100 exampleLevels))) = Some 3"
proof -
  have h: "dm_peakCapital (recomputeDrawdown 84 (DrawdownManager_new 100 exampleLevels)) \<noteq> 0"
    by (simp add: recomputeDrawdown_def DrawdownManager_new_def Let_def)
  have d: "dueLevels (recomputeDrawdown 84 (DrawdownManager_new 100 exampleLevels)) [0 ..< 3] = [0, 1, 2]"
    by (simp add: dueLevels_def recomputeDrawdown_def DrawdownManager_new_def exampleLevels_def
        Let_def upt_rec)
  have l: "length (dm_levels (DrawdownManager_new 100 exampleLevels)) = 3"
    by (simp add: DrawdownManager_new_def exampleLevels_def)
  show ?thesis
    using h d updateCapital_fires_due_levels_in_order[OF h, of 0]
    by (simp add: Let_def l)
qed

subsection \<open>The default levels\<close>

text \<open>
  With the default levels of the configuration, whose percents are positive, a first
  \<open>updateCapital\<close> that leaves the capital where it is (drawdown 0) fires all three
  levels, the stop included.
\<close>

lemma default_levels_fire_without_loss:
  "levelsFired (fst (dm_updateCapital now 50 (DrawdownManager_new 50 configDrawdownLevels)))
     = [1, 2, 3]"
  by (simp add: dm_updateCapital_def checkDrawdownLevels_def recomputeDrawdown_def
      DrawdownManager_new_def configDrawdownLevels_def triggerLevel_def executeAction_def
      pauseTrading_def resetToConservative_def stopCompletely_def eventName_def truthy_num_def
      Let_def upt_rec)

section \<open>Properties of the PositionManager\<close>

subsection \<open>Available capital\<close>






subsection \<open>A second position for the same pair\<close>

text \<open>
  Claim C8. When a position for \<open>pair\<close> is open, \<open>openPosition\<close> for that pair returns
  false and leaves the state as it is: the capital, the number of open positions and the
  position of the pair are unchanged.
\<close>

theorem openPosition_existing_pair:
  assumes "hasOpenPosition s pair"
  shows "let (ok, s') = openPosition now pair entryPrice amountUSD amountToken s in
           ok = False \<and> s' = s \<and> pm_currentCapital s' = pm_currentCapital s \<and>
           length (pm_openPositions s') = length (pm_openPositions s) \<and>
           getPosition s' pair = getPosition s pair"
  using assms by (simp add: openPosition_def)

theorem openPosition_existing_pair_witness:
  "hasOpenPosition (snd (openPosition 0 ''ETH/USDC'' 2000 25 0.0125 (PositionManager_new 0.10 50)))
     ''ETH/USDC'' \<and>
   openPosition 1 ''ETH/USDC'' 2100 10 0.005
     (snd (openPosition 0 ''ETH/USDC'' 2000 25 0.0125 (PositionManager_new 0.10 50))) =
   (False, snd (openPosition 0 ''ETH/USDC'' 2000 25 0.0125 (PositionManager_new 0.10 50)))"
proof -
  have h: "hasOpenPosition (snd (openPosition 0 ''ETH/USDC'' 2000 25 0.0125 (PositionManager_new 0.10 50)))
     ''ETH/USDC''"
    by (simp add: hasOpenPosition_def openPosition_def PositionManager_new_def)
  show ?thesis
    using h openPosition_existing_pair[OF h, where now = 1 and entryPrice = 2100 and amountUSD = 10
        and amountToken = "0.005"]
    by (simp split: prod.splits)
qed

section \<open>Properties of the TrailingStopLoss\<close>

lemma sl_update_fields:
  "sl_trailingPercent (snd (snd (sl_update p s))) = sl_trailingPercent s"
  "sl_entryPrice (snd (snd (sl_update p s))) = sl_entryPrice s"
  "sl_highestPrice (snd (snd (sl_update p s))) = (if p > sl_highestPrice s then p else sl_highestPrice s)"
  "sl_stopPrice (snd (snd (sl_update p s))) =
     (if p > sl_highestPrice s then p * (1 - sl_trailingPercent s) else sl_stopPrice s)"
  by (simp_all add: sl_update_def Let_def)

lemma sl_update_latch: "sl_isTriggered s \<Longrightarrow> sl_isTriggered (snd (snd (sl_update p s)))"
  by (simp add: sl_update_def Let_def)

lemma sl_update_inv: "sl_inv s \<Longrightarrow> sl_inv (snd (snd (sl_update p s)))"
  by (simp add: sl_inv_def sl_update_fields)

lemma sl_update_stop_mono:
  assumes "sl_inv s" "sl_trailingPercent s \<le> 1"
  shows "sl_stopPrice s \<le> sl_stopPrice (snd (snd (sl_update p s)))"
proof (cases "p > sl_highestPrice s")
  case True
  have "0 \<le> 1 - sl_trailingPercent s" using assms(2) by simp
  then have "sl_highestPrice s * (1 - sl_trailingPercent s) \<le> p * (1 - sl_trailingPercent s)"
    using True by (intro mult_right_mono) simp_all
  then show ?thesis using True assms(1) by (simp add: sl_update_fields sl_inv_def)
next
  case False
  then show ?thesis by (simp add: sl_update_fields)
qed

lemma sl_run_append: "sl_run (a @ b) s = sl_run b (sl_run a s)"
  by (induction a arbitrary: s) simp_all

lemma sl_run_percent: "sl_trailingPercent (sl_run ps s) = sl_trailingPercent s"
  by (induction ps arbitrary: s) (simp_all add: sl_update_fields)

lemma sl_run_inv: "sl_inv s \<Longrightarrow> sl_inv (sl_run ps s)"
  by (induction ps arbitrary: s) (simp_all add: sl_update_inv)

lemma sl_run_latch: "sl_isTriggered s \<Longrightarrow> sl_isTriggered (sl_run ps s)"
  by (induction ps arbitrary: s) (simp_all add: sl_update_latch)

lemma sl_run_highest_mono: "sl_highestPrice s \<le> sl_highestPrice (sl_run ps s)"
proof (induction ps arbitrary: s)
  case Nil
  show ?case by simp
next
  case (Cons p ps)
  have "sl_highestPrice s \<le> sl_highestPrice (snd (snd (sl_update p s)))"
    by (simp add: sl_update_fields)
  then show ?case using Cons.IH[of "snd (snd (sl_update p s))"] by simp
qed

lemma sl_run_stop_mono:
  "sl_inv s \<Longrightarrow> sl_trailingPercent s \<le> 1 \<Longrightarrow> sl_stopPrice s \<le> sl_stopPrice (sl_run ps s)"
proof (induction ps arbitrary: s)
  case Nil
  show ?case by simp
next
  case (Cons p ps)
  let ?s1 = "snd (snd (sl_update p s))"
  have "sl_stopPrice s \<le> sl_stopPrice ?s1" using Cons.prems by (rule sl_update_stop_mono)
  moreover have "sl_stopPrice ?s1 \<le> sl_stopPrice (sl_run ps ?s1)"
    using Cons.prems by (intro Cons.IH) (simp_all add: sl_update_inv sl_update_fields)
  ultimately show ?case by simp
qed

lemma sl_inv_new: "sl_inv (TrailingStopLoss_new cfg entryPrice tpo)"
  by (simp add: sl_inv_def TrailingStopLoss_new_def Let_def)

text \<open>
  Claim C5, as the code has it. For every TrailingStopLoss, \<open>isTriggered\<close> stays true once
  it is true, through one \<open>update\<close> and through any sequence of them; along every
  sequence of \<open>update\<close> calls the highest price never decreases, the stop price is always
  \<open>highestPrice * (1 - trailingPercent)\<close>, and an \<open>update\<close> changes it only when the price
  is strictly above the highest price so far. When the trailing percent is at most 1
  (100%), the stop price never decreases.
\<close>

theorem stop_price_monotone_latch:
  "let s0 = TrailingStopLoss_new stopLossTrailing entryPrice trailingPercent;
       s = sl_run ps s0; s' = sl_run (ps @ ps') s0; u = snd (snd (sl_update p s))
   in (sl_isTriggered t \<longrightarrow> sl_isTriggered (snd (snd (sl_update p t)))) \<and>
      (sl_isTriggered t \<longrightarrow> sl_isTriggered (sl_run ps t)) \<and>
      (sl_isTriggered s \<longrightarrow> sl_isTriggered s') \<and>
      sl_highestPrice s \<le> sl_highestPrice s' \<and>
      sl_stopPrice s = sl_highestPrice s * (1 - sl_trailingPercent s0) \<and>
      (if p > sl_highestPrice s
       then sl_highestPrice u = p \<and> sl_stopPrice u = p * (1 - sl_trailingPercent s0)
       else sl_highestPrice u = sl_highestPrice s \<and> sl_stopPrice u = sl_stopPrice s) \<and>
      (sl_trailingPercent s0 \<le> 1 \<longrightarrow> sl_stopPrice s \<le> sl_stopPrice s')"
proof -
  let ?init = "TrailingStopLoss_new stopLossTrailing entryPrice trailingPercent"
  let ?s = "sl_run ps ?init"
  have i: "sl_inv ?s" by (simp add: sl_run_inv sl_inv_new)
  have tp: "sl_trailingPercent ?s = sl_trailingPercent ?init" by (rule sl_run_percent)
  have m: "sl_trailingPercent ?init \<le> 1 \<longrightarrow> sl_stopPrice ?s \<le> sl_stopPrice (sl_run ps' ?s)"
    using i tp sl_run_stop_mono[of ?s ps'] by simp
  have h: "sl_highestPrice ?s \<le> sl_highestPrice (sl_run ps' ?s)"
    by (rule sl_run_highest_mono)
  have l: "sl_isTriggered ?s \<longrightarrow> sl_isTriggered (sl_run ps' ?s)"
    by (simp add: sl_run_latch)
  have l1: "sl_isTriggered t \<longrightarrow> sl_isTriggered (snd (snd (sl_update p t)))"
    by (simp add: sl_update_latch)
  have l2: "sl_isTriggered t \<longrightarrow> sl_isTriggered (sl_run ps t)"
    by (simp add: sl_run_latch)
  show ?thesis using i tp m h l l1 l2
    by (simp add: Let_def sl_run_append sl_update_fields sl_inv_def)
qed

theorem stop_price_monotone_latch_witness:
  "sl_trailingPercent (TrailingStopLoss_new 0.03 100 None) \<le> 1 \<and>
   sl_stopPrice (TrailingStopLoss_new 0.03 100 None) = 97 \<and>
   sl_stopPrice (sl_run [110] (TrailingStopLoss_new 0.03 100 None)) = 106.7 \<and>
   sl_stopPrice (sl_run [110, 106] (TrailingStopLoss_new 0.03 100 None)) = 106.7 \<and>
   sl_isTriggered (sl_run [110, 106] (TrailingStopLoss_new 0.03 100 None)) \<and>
   sl_isTriggered (sl_run [110, 106, 120] (TrailingStopLoss_new 0.03 100 None)) \<and>
   \<not> sl_trailingPercent (TrailingStopLoss_new 3 100 None) \<le> 1 \<and>
   sl_isTriggered (sl_run [- 250] (TrailingStopLoss_new 3 100 None)) \<and>
   sl_isTriggered (sl_run [- 250, 110, 90] (TrailingStopLoss_new 3 100 None))"
proof -
  have h: "sl_trailingPercent (TrailingStopLoss_new 0.03 100 None) \<le> 1"
    by (simp add: TrailingStopLoss_new_def truthy_num_def)
  have g: "sl_isTriggered (sl_run [- 250] (TrailingStopLoss_new 3 100 None))"
    by (simp add: TrailingStopLoss_new_def sl_update_def truthy_num_def Let_def)
  show ?thesis
    using h g
      stop_price_monotone_latch[where stopLossTrailing = "0.03" and entryPrice = 100
        and trailingPercent = None and ps = "[110]" and ps' = "[106]" and p = 106
        and t = "sl_run [110, 106] (TrailingStopLoss_new 0.03 100 None)"]
      stop_price_monotone_latch[where stopLossTrailing = 3 and entryPrice = 100
        and trailingPercent = None and ps = "[- 250]" and ps' = "[110, 90]" and p = 110
        and t = "sl_run [- 250] (TrailingStopLoss_new 3 100 None)"]
    by (simp add: TrailingStopLoss_new_def sl_update_def truthy_num_def Let_def)
qed

text \<open>
  The claim as stated fails for a trailing percent above 1: with the configured value 3
  (300%) and an entry at 100 the stop price starts at -200, and a rise of the price to 110
  takes it down to -220.
\<close>

theorem stop_price_decreases:
  "sl_stopPrice (sl_run [110] (TrailingStopLoss_new 3 100 None))
     < sl_stopPrice (TrailingStopLoss_new 3 100 None)"
  by (simp add: TrailingStopLoss_new_def sl_update_def truthy_num_def Let_def)

section \<open>Properties of the TakeProfitLevels\<close>

lemma checkLevelsFrom_levels:
  "fst (checkLevelsFrom e p ls) =
     map (\<lambda>l. if tp_due p l then l\<lparr> tp_isTriggered := True \<rparr> else l) ls"
  by (induction ls) (auto simp: tp_due_def Let_def split: prod.splits)

lemma checkLevelsFrom_triggered:
  "fst (snd (checkLevelsFrom e p ls)) =
     map (\<lambda>l. l\<lparr> tp_isTriggered := True \<rparr>) (filter (tp_due p) ls)"
  by (induction ls) (auto simp: tp_due_def Let_def split: prod.splits)

lemma checkLevels_levels:
  "tpl_levels (snd (snd (checkLevels p t))) =
     map (\<lambda>l. if tp_due p l then l\<lparr> tp_isTriggered := True \<rparr> else l) (tpl_levels t)"
  using checkLevelsFrom_levels[of "tpl_entryPrice t" p "tpl_levels t"]
  by (auto simp: checkLevels_def Let_def split: prod.splits)

lemma checkLevels_returned:
  "fst (checkLevels p t) = map (\<lambda>l. l\<lparr> tp_isTriggered := True \<rparr>) (filter (tp_due p) (tpl_levels t))"
  using checkLevelsFrom_triggered[of "tpl_entryPrice t" p "tpl_levels t"]
  by (auto simp: checkLevels_def Let_def split: prod.splits)

lemma checkLevels_executed:
  "tpl_executedLevels (snd (snd (checkLevels p t))) = tpl_executedLevels t @ fst (checkLevels p t)"
  by (auto simp: checkLevels_def Let_def split: prod.splits)

lemma allLevelsExecuted_iff:
  "allLevelsExecuted t \<longleftrightarrow> (\<forall>l \<in> set (tpl_levels t). tp_isTriggered l)"
  by (simp add: allLevelsExecuted_def list_all_iff)

lemma map_index_flag:
  "map tp_levelIndex (map (\<lambda>l. if P l then l\<lparr> tp_isTriggered := True \<rparr> else l) ls) = map tp_levelIndex ls"
  by (induction ls) auto

lemma map_index_flag':
  "map tp_levelIndex (map (\<lambda>l. l\<lparr> tp_isTriggered := True \<rparr>) ls) = map tp_levelIndex ls"
  by (induction ls) auto

lemma index_set_flag':
  "tp_levelIndex ` set (map (\<lambda>l. l\<lparr> tp_isTriggered := True \<rparr>) xs) = tp_levelIndex ` set xs"
  by (induction xs) simp_all

lemma index_triggered_after:
  "tp_levelIndex ` {l \<in> set (map (\<lambda>l. if P l then l\<lparr> tp_isTriggered := True \<rparr> else l) ls).
                     tp_isTriggered l} =
   tp_levelIndex ` {l \<in> set ls. tp_isTriggered l \<or> P l}"
proof (induction ls)
  case Nil
  show ?case by simp
next
  case (Cons x xs)
  let ?f = "\<lambda>l. if P l then l\<lparr> tp_isTriggered := True \<rparr> else l"
  have l: "{l \<in> set (map ?f (x # xs)). tp_isTriggered l} =
        (if tp_isTriggered (?f x) then {?f x} else {}) \<union> {l \<in> set (map ?f xs). tp_isTriggered l}"
    by auto
  have r: "{l \<in> set (x # xs). tp_isTriggered l \<or> P l} =
        (if tp_isTriggered x \<or> P x then {x} else {}) \<union> {l \<in> set xs. tp_isTriggered l \<or> P l}"
    by auto
  show ?case unfolding l r image_Un Cons.IH by simp
qed

lemma checkLevels_inv:
  assumes "tp_inv t"
  shows "tp_inv (snd (snd (checkLevels p t)))"
proof -
  let ?ls = "tpl_levels t"
  let ?T = "tp_levelIndex ` {l \<in> set ?ls. tp_isTriggered l}"
  let ?D = "tp_levelIndex ` set (filter (tp_due p) ?ls)"
  let ?E = "tp_levelIndex ` set (tpl_executedLevels t)"
  have d: "distinct (map tp_levelIndex ?ls)"
    and de: "distinct (map tp_levelIndex (tpl_executedLevels t))"
    and sub: "?E \<subseteq> ?T"
    using assms by (simp_all add: tp_inv_def)
  have inj: "inj_on tp_levelIndex (set ?ls)" using d by (simp add: distinct_map)
  have TD: "?T \<inter> ?D = {}"
  proof (rule ccontr)
    assume "?T \<inter> ?D \<noteq> {}"
    then obtain n where "n \<in> ?T" "n \<in> ?D" by blast
    then obtain a b where a: "a \<in> set ?ls" "tp_isTriggered a" "tp_levelIndex a = n"
      and b: "b \<in> set ?ls" "tp_due p b" "tp_levelIndex b = n" by auto
    have "a = b" using inj a(1,3) b(1,3) by (simp add: inj_on_def)
    then show False using a(2) b(2) by (simp add: tp_due_def)
  qed
  have dr: "distinct (map tp_levelIndex (filter (tp_due p) ?ls))"
    using d by (rule distinct_map_filter)
  have 1: "distinct (map tp_levelIndex (tpl_levels (snd (snd (checkLevels p t)))))"
    using d by (simp only: checkLevels_levels map_index_flag)
  have 2: "distinct (map tp_levelIndex (tpl_executedLevels (snd (snd (checkLevels p t)))))"
    using de dr sub TD
    by (simp only: checkLevels_executed checkLevels_returned map_append map_index_flag'
        distinct_append set_map) blast
  have "?T \<union> ?D = tp_levelIndex ` {l \<in> set ?ls. tp_isTriggered l \<or> tp_due p l}"
    by auto
  then have 3: "tp_levelIndex ` set (tpl_executedLevels (snd (snd (checkLevels p t)))) \<subseteq>
       tp_levelIndex ` {l \<in> set (tpl_levels (snd (snd (checkLevels p t)))). tp_isTriggered l}"
    using sub
    by (simp only: checkLevels_executed checkLevels_returned checkLevels_levels
        index_triggered_after set_append image_Un index_set_flag') blast
  show ?thesis unfolding tp_inv_def using 1 2 3 by blast
qed

lemma tp_run_inv: "tp_inv t \<Longrightarrow> tp_inv (tp_run ps t)"
  by (induction ps arbitrary: t) (simp_all add: checkLevels_inv)

lemma levelsFromConfig_index:
  "map tp_levelIndex (levelsFromConfig e i cfg) = [Suc i ..< Suc i + length cfg]"
  by (induction cfg arbitrary: i) (simp_all add: upt_rec)

lemma tp_inv_new: "tp_inv (TakeProfitLevels_new cfg e None)"
  by (simp add: tp_inv_def TakeProfitLevels_new_def levelsFromConfig_index)


lemma checkLevels_example:
  "map tp_levelIndex (fst (checkLevels 135 (TakeProfitLevels_new configTakeProfitLevels 100 None))) = [1, 2, 3]"
  "allLevelsExecuted (snd (snd (checkLevels 135 (TakeProfitLevels_new configTakeProfitLevels 100 None))))"
  by (simp_all add: checkLevels_def TakeProfitLevels_new_def configTakeProfitLevels_def
      allLevelsExecuted_def Let_def)

text \<open>
  Claim C6. One call of \<open>checkLevels\<close> sets \<open>isTriggered\<close> on exactly the untriggered
  levels whose target price is at most the current price, returns these levels and
  appends them to \<open>executedLevels\<close>; a level is triggered after the call if and only if
  it was triggered before or the price has reached its target. \<open>allLevelsExecuted\<close> is true
  if and only if every level is triggered. For an object built from the configuration,
  no level index occurs twice in \<open>executedLevels\<close> after any sequence of calls. With an
  entry at 100 and levels at +10%, +20% and +30%, one call at 135 triggers all three.
\<close>

theorem take_profit_levels_trigger:
  "let returned = fst (checkLevels p t); t' = snd (snd (checkLevels p t)) in
     tpl_levels t' = map (\<lambda>l. if tp_due p l then l\<lparr> tp_isTriggered := True \<rparr> else l) (tpl_levels t) \<and>
     returned = map (\<lambda>l. l\<lparr> tp_isTriggered := True \<rparr>) (filter (tp_due p) (tpl_levels t)) \<and>
     tpl_executedLevels t' = tpl_executedLevels t @ returned \<and>
     (\<forall>i < length (tpl_levels t).
        (tp_isTriggered (tpl_levels t' ! i) \<longleftrightarrow>
           tp_isTriggered (tpl_levels t ! i) \<or> p \<ge> tp_targetPrice (tpl_levels t ! i))) \<and>
     (allLevelsExecuted t' \<longleftrightarrow> (\<forall>l \<in> set (tpl_levels t'). tp_isTriggered l)) \<and>
     distinct (map tp_levelIndex
       (tpl_executedLevels (tp_run ps (TakeProfitLevels_new configLevels entryPrice None)))) \<and>
     map tp_levelIndex
       (fst (checkLevels 135 (TakeProfitLevels_new configTakeProfitLevels 100 None))) = [1, 2, 3] \<and>
     allLevelsExecuted (snd (snd (checkLevels 135 (TakeProfitLevels_new configTakeProfitLevels 100 None))))"
proof -
  have flags: "\<forall>i < length (tpl_levels t).
        (tp_isTriggered (tpl_levels (snd (snd (checkLevels p t))) ! i) \<longleftrightarrow>
           tp_isTriggered (tpl_levels t ! i) \<or> p \<ge> tp_targetPrice (tpl_levels t ! i))"
    by (simp add: checkLevels_levels tp_due_def)
  have once: "distinct (map tp_levelIndex
       (tpl_executedLevels (tp_run ps (TakeProfitLevels_new configLevels entryPrice None))))"
    using tp_run_inv[OF tp_inv_new, of ps configLevels entryPrice] by (simp add: tp_inv_def)
  show ?thesis
    unfolding Let_def
    using flags once checkLevels_example
    by (simp only: checkLevels_levels checkLevels_returned checkLevels_executed
        allLevelsExecuted_iff simp_thms)
qed

theorem take_profit_levels_trigger_witness:
  "map tp_isTriggered (tpl_levels (snd (snd
     (checkLevels 125 (TakeProfitLevels_new configTakeProfitLevels 100 None))))) = [True, True, False] \<and>
   map tp_levelIndex (fst
     (checkLevels 125 (TakeProfitLevels_new configTakeProfitLevels 100 None))) = [1, 2] \<and>
   \<not> allLevelsExecuted (snd (snd
     (checkLevels 125 (TakeProfitLevels_new configTakeProfitLevels 100 None)))) \<and>
   map tp_levelIndex (tpl_executedLevels
     (tp_run [125, 115, 135] (TakeProfitLevels_new configTakeProfitLevels 100 None))) = [1, 2, 3]"
  using take_profit_levels_trigger
    [where p = 125 and t = "TakeProfitLevels_new configTakeProfitLevels 100 None"
       and ps = "[125, 115, 135]" and configLevels = configTakeProfitLevels and entryPrice = 100]
  by (simp add: Let_def checkLevels_def TakeProfitLevels_new_def configTakeProfitLevels_def
      allLevelsExecuted_def tp_due_def)

section \<open>Properties of the ExitManager\<close>

lemma map_of_update_same: "map_of (AList.update k v ps) k = Some v"
  by (simp add: update_conv')

text \<open>
  Claim C2. When the pair is managed and the trailing stop triggers on the price, \<open>update\<close>
  returns the full exit with the reason \<open>stop_loss\<close>, the price as exit price and the
  profit in percent of the entry price (for an entry price other than 0); the take-profit
  levels of the pair are left as they were and the only events are those of the stop,
  whether or not the price has reached a take-profit target.
\<close>

theorem stop_loss_precedes_take_profit:
  assumes managed: "map_of (em_activeExits s) pair = Some exit"
    and stop: "fst (sl_update currentPrice (ex_stopLoss exit))"
  shows "let (decision, es, s') = em_update pair currentPrice s in
           (\<exists>pnlPercent. decision = FullExit ''stop_loss'' currentPrice pnlPercent \<and>
              (ex_entryPrice exit \<noteq> 0 \<longrightarrow>
                 pnlPercent = ((currentPrice - ex_entryPrice exit) / ex_entryPrice exit) * 100)) \<and>
           (\<exists>exit'. map_of (em_activeExits s') pair = Some exit' \<and>
              ex_takeProfit exit' = ex_takeProfit exit) \<and>
           es = fst (snd (sl_update currentPrice (ex_stopLoss exit)))"
proof -
  obtain e1 stopLoss' where u: "sl_update currentPrice (ex_stopLoss exit) = (True, e1, stopLoss')"
    using stop by (cases "sl_update currentPrice (ex_stopLoss exit)") auto
  show ?thesis using managed u
    by (simp add: em_update_def Let_def map_of_update_same)
qed

theorem stop_loss_precedes_take_profit_witness:
  "map_of (em_activeExits exampleExits) ''ETH/USDC'' = Some exampleExit \<and>
   fst (sl_update 150 (ex_stopLoss exampleExit)) \<and>
   list_all (tp_due 150) (tpl_levels (ex_takeProfit exampleExit)) \<and>
   fst (em_update ''ETH/USDC'' 150 exampleExits) = FullExit ''stop_loss'' 150 50 \<and>
   map_option ex_takeProfit
     (map_of (em_activeExits (snd (snd (em_update ''ETH/USDC'' 150 exampleExits)))) ''ETH/USDC'')
     = Some (ex_takeProfit exampleExit) \<and>
   fst (em_update ''ETH/USDC'' 96
          (startManaging 0.03 configTakeProfitLevels 0 ''ETH/USDC'' 100 ExitManager_new))
     = FullExit ''stop_loss'' 96 (- 4)"
proof -
  have r: "fst (em_update ''ETH/USDC'' 96
          (startManaging 0.03 configTakeProfitLevels 0 ''ETH/USDC'' 100 ExitManager_new))
     = FullExit ''stop_loss'' 96 (- 4)"
    by (simp add: em_update_def startManaging_def ExitManager_new_def TrailingStopLoss_new_def
        sl_update_def truthy_num_def Let_def)
  have m: "map_of (em_activeExits exampleExits) ''ETH/USDC'' = Some exampleExit"
    by (simp add: exampleExits_def)
  have st: "fst (sl_update 150 (ex_stopLoss exampleExit))"
    by (simp add: exampleExit_def sl_update_def Let_def)
  have due: "list_all (tp_due 150) (tpl_levels (ex_takeProfit exampleExit))"
    by (simp add: exampleExit_def TakeProfitLevels_new_def configTakeProfitLevels_def tp_due_def)
  have e: "ex_entryPrice exampleExit = 100" by (simp add: exampleExit_def)
  show ?thesis
    using m st due r stop_loss_precedes_take_profit[OF m st]
    by (auto simp: e split: prod.splits)
qed

section \<open>Properties of the strategies' gate\<close>

text \<open>
  Claim C10. A snapshot that has price, volume, liquidity and timestamp, but in which the
  price, the volume or the liquidity is 0, fails \<open>validateMarketData\<close>, so \<open>canTrade\<close> of
  the grid strategy and of the momentum strategy reject it; the list of missing fields is
  the one of the same snapshot with the zero field absent.
\<close>

theorem zero_field_counts_as_missing:
  assumes present: "md_price md = Some p" "md_volume md = Some v" "md_liquidity md = Some l"
      "md_timestamp md = Some ts"
    and zero: "p = 0 \<or> v = 0 \<or> l = 0"
  shows "\<not> validateMarketData md \<and>
         \<not> grid_canTrade minLiquidity md \<and>
         \<not> momentum_canTrade minVolume24h md \<and>
         (p = 0 \<longrightarrow> missingFields md = missingFields (md\<lparr> md_price := None \<rparr>)) \<and>
         (v = 0 \<longrightarrow> missingFields md = missingFields (md\<lparr> md_volume := None \<rparr>)) \<and>
         (l = 0 \<longrightarrow> missingFields md = missingFields (md\<lparr> md_liquidity := None \<rparr>))"
proof -
  have m: "missingFields md \<noteq> []"
    using present zero by (auto simp: missingFields_def fieldMissing_def truthy_num_def)
  then have v: "\<not> validateMarketData md" by (simp add: validateMarketData_def)
  have "p = 0 \<longrightarrow> missingFields md = missingFields (md\<lparr> md_price := None \<rparr>)"
    "v = 0 \<longrightarrow> missingFields md = missingFields (md\<lparr> md_volume := None \<rparr>)"
    "l = 0 \<longrightarrow> missingFields md = missingFields (md\<lparr> md_liquidity := None \<rparr>)"
    using present by (simp_all add: missingFields_def fieldMissing_def truthy_num_def)
  then show ?thesis using v by (simp add: grid_canTrade_def momentum_canTrade_def)
qed

theorem zero_field_counts_as_missing_witness:
  "\<not> validateMarketData
       \<lparr> md_price = Some 2000, md_volume = Some 0, md_liquidity = Some 100000,
         md_volatility = Some 0.10, md_timestamp = Some ''2025-11-05T12:00:00.000Z'' \<rparr> \<and>
   \<not> grid_canTrade 75000
       \<lparr> md_price = Some 2000, md_volume = Some 0, md_liquidity = Some 100000,
         md_volatility = Some 0.10, md_timestamp = Some ''2025-11-05T12:00:00.000Z'' \<rparr> \<and>
   \<not> momentum_canTrade 0
       \<lparr> md_price = Some 2000, md_volume = Some 0, md_liquidity = Some 100000,
         md_volatility = Some 0.10, md_timestamp = Some ''2025-11-05T12:00:00.000Z'' \<rparr> \<and>
   grid_canTrade 75000
       \<lparr> md_price = Some 2000, md_volume = Some 1, md_liquidity = Some 100000,
         md_volatility = Some 0.10, md_timestamp = Some ''2025-11-05T12:00:00.000Z'' \<rparr>"
proof -
  have g: "grid_canTrade 75000
       \<lparr> md_price = Some 2000, md_volume = Some 1, md_liquidity = Some 100000,
         md_volatility = Some 0.10, md_timestamp = Some ''2025-11-05T12:00:00.000Z'' \<rparr>"
    by (simp add: grid_canTrade_def validateMarketData_def missingFields_def fieldMissing_def
        truthy_num_def truthy_str_def num_less_def num_greater_def)
  show ?thesis
    using g zero_field_counts_as_missing
      [where md = "\<lparr> md_price = Some 2000, md_volume = Some 0, md_liquidity = Some 100000,
         md_volatility = Some 0.10, md_timestamp = Some ''2025-11-05T12:00:00.000Z'' \<rparr>"
         and p = 2000 and v = 0 and l = 100000 and ts = "''2025-11-05T12:00:00.000Z''"
         and minLiquidity = 75000 and ?minVolume24h.0 = 0]
    by simp
qed

section \<open>Properties of the StrategyManager\<close>

lemma selectStrategy_true:
  assumes "selectStrategy t name s = (Inr True, es, s1)"
  shows "sm_lastSwitch s1 = Some t \<and> sm_switchCooldown s1 = sm_switchCooldown s \<and>
         (\<exists>k. lookupStrategy name = Found k \<and> sm_currentStrategy s1 = Strategy k)"
  using assms
  by (auto simp: selectStrategy_def Let_def setActive_def
      split: if_splits lookup.splits current.splits strategyKey.splits)

lemma selectStrategy_cooldown:
  assumes "sm_lastSwitch s = Some t" "t \<noteq> 0" "t' < t + sm_switchCooldown s"
  shows "selectStrategy t' name s = (Inr False, [], s)"
  using assms by (simp add: selectStrategy_def truthy_num_def)

lemma forceSwitch_found:
  assumes "lookupStrategy name = Found k" "sm_currentStrategy s \<noteq> NotAStrategy"
  shows "\<exists>es s'. forceSwitch now name s = (Inr True, es, s') \<and>
           sm_currentStrategy s' = Strategy k \<and> sm_lastSwitch s' = Some now"
  using assms
  by (cases "sm_currentStrategy s")
     (simp_all add: forceSwitch_def selectStrategy_def truthy_num_def Let_def)

lemma forceSwitch_false:
  assumes "fst (forceSwitch now name s) = Inr False"
  shows "forceSwitch now name s = (Inr False, [], s)"
  using assms
  by (auto simp: forceSwitch_def selectStrategy_def truthy_num_def Let_def
      split: lookup.splits current.splits if_splits)

lemma forceSwitch_true:
  assumes "forceSwitch t name s = (Inr True, es, s1)"
  shows "sm_lastSwitch s1 = Some t \<and> sm_switchCooldown s1 = sm_switchCooldown s \<and>
         (\<exists>k. lookupStrategy name = Found k \<and> sm_currentStrategy s1 = Strategy k)"
proof -
  obtain r es' s' where sel: "selectStrategy t name (s\<lparr> sm_lastSwitch := None \<rparr>) = (r, es', s')"
    by (cases "selectStrategy t name (s\<lparr> sm_lastSwitch := None \<rparr>)") auto
  then have "r = Inr True" "s' = s1"
    using assms by (auto simp: forceSwitch_def Let_def split: sum.splits bool.splits if_splits)
  then show ?thesis using selectStrategy_true[of t name "s\<lparr> sm_lastSwitch := None \<rparr>" es' s1] sel
    by simp
qed

text \<open>
  Claim C9. After a switch that succeeded at a time \<open>t\<close> (a clock reading other than 0),
  through \<open>selectStrategy\<close> or through \<open>forceSwitch\<close>,
  \<open>lastSwitch\<close> is \<open>t\<close>, and a \<open>selectStrategy\<close> at any time before \<open>t\<close> plus the cooldown
  returns false, emits nothing and leaves the state as it is. \<open>forceSwitch\<close> to one of
  the two strategies succeeds at such a time all the same and sets \<open>lastSwitch\<close> to that
  time. Whenever \<open>forceSwitch\<close> returns false, the state afterwards is the state before,
  with the previous \<open>lastSwitch\<close>. The cooldown of a new manager is 300000 ms.
\<close>

theorem switch_cooldown_and_force:
  assumes switched: "selectStrategy t name s = (Inr True, es, s1) \<or>
                     forceSwitch t name s = (Inr True, es, s1)"
    and clock: "t \<noteq> 0"
    and within: "t' < t + sm_switchCooldown s"
  shows "sm_lastSwitch s1 = Some t \<and>
         selectStrategy t' name' s1 = (Inr False, [], s1) \<and>
         (\<forall>k. lookupStrategy name' = Found k \<longrightarrow>
            (\<exists>es' s2. forceSwitch t' name' s1 = (Inr True, es', s2) \<and>
               sm_currentStrategy s2 = Strategy k \<and> sm_lastSwitch s2 = Some t')) \<and>
         (fst (forceSwitch now name'' u) = Inr False \<longrightarrow>
            forceSwitch now name'' u = (Inr False, [], u)) \<and>
         sm_switchCooldown (StrategyManager_new defaultStrategy) = 300000"
proof -
  from switched selectStrategy_true[of t name s es s1] forceSwitch_true[of t name s es s1]
  obtain k0 where s1: "sm_lastSwitch s1 = Some t" "sm_switchCooldown s1 = sm_switchCooldown s"
      "sm_currentStrategy s1 = Strategy k0" by blast
  have rej: "selectStrategy t' name' s1 = (Inr False, [], s1)"
    using s1 clock within by (intro selectStrategy_cooldown) simp_all
  have force: "\<forall>k. lookupStrategy name' = Found k \<longrightarrow>
            (\<exists>es' s2. forceSwitch t' name' s1 = (Inr True, es', s2) \<and>
               sm_currentStrategy s2 = Strategy k \<and> sm_lastSwitch s2 = Some t')"
    using s1(3) forceSwitch_found[of name' _ s1 t'] by simp
  show ?thesis using s1(1) rej force forceSwitch_false[of now name'' u]
    by (simp add: StrategyManager_new_def)
qed

theorem switch_cooldown_and_force_witness:
  "selectStrategy 1000 ''grid'' (StrategyManager_new ''auto'') =
     (Inr True, [EmitStrategySelected ''Grid Trading'', EmitStrategySelected ''grid''],
      (StrategyManager_new ''auto'')
        \<lparr> sm_gridActive := True, sm_currentStrategy := Strategy Grid, sm_lastSwitch := Some 1000 \<rparr>) \<and>
   (1000::real) \<noteq> 0 \<and>
   200000 < 1000 + sm_switchCooldown (StrategyManager_new ''auto'') \<and>
   fst (selectStrategy 200000 ''momentum''
     ((StrategyManager_new ''auto'')
        \<lparr> sm_gridActive := True, sm_currentStrategy := Strategy Grid, sm_lastSwitch := Some 1000 \<rparr>))
     = Inr False \<and>
   fst (forceSwitch 200000 ''momentum''
     ((StrategyManager_new ''auto'')
        \<lparr> sm_gridActive := True, sm_currentStrategy := Strategy Grid, sm_lastSwitch := Some 1000 \<rparr>))
     = Inr True \<and>
   fst (forceSwitch 200000 ''scalping''
     ((StrategyManager_new ''auto'')
        \<lparr> sm_gridActive := True, sm_currentStrategy := Strategy Grid, sm_lastSwitch := Some 1000 \<rparr>))
     = Inr False"
proof -
  let ?s1 = "(StrategyManager_new ''auto'')
        \<lparr> sm_gridActive := True, sm_currentStrategy := Strategy Grid, sm_lastSwitch := Some 1000 \<rparr>"
  have sw: "selectStrategy 1000 ''grid'' (StrategyManager_new ''auto'') =
     (Inr True, [EmitStrategySelected ''Grid Trading'', EmitStrategySelected ''grid''], ?s1)"
    by (simp add: selectStrategy_def StrategyManager_new_def lookupStrategy_def truthy_num_def
        setActive_def strategyName_def Let_def)
  have c: "(1000::real) \<noteq> 0" by simp
  have w: "200000 < 1000 + sm_switchCooldown (StrategyManager_new ''auto'')"
    by (simp add: StrategyManager_new_def)
  have f: "fst (forceSwitch 200000 ''scalping'' ?s1) = Inr False"
    by (simp add: forceSwitch_def selectStrategy_def StrategyManager_new_def lookupStrategy_def
        inheritedNames_def truthy_num_def Let_def)
  have k: "lookupStrategy ''momentum'' = Found Momentum" by (simp add: lookupStrategy_def)
  show ?thesis
    using sw c w f k
      switch_cooldown_and_force[OF disjI1[OF sw] c w, where name' = "''momentum''" and now = 200000
        and name'' = "''scalping''" and u = ?s1 and defaultStrategy = "''auto''"]
    by auto
qed

end
